theory Spec2Isabelle
  imports Main
begin

section \<open>The Rick and Morty aggregation service (src/index.ts)\<close>

text \<open>
  The service has two helpers that talk to the upstream API (\<open>searchResource\<close>,
  \<open>getAllCharacters\<close>) and two request handlers (\<open>/search\<close>, \<open>/top-pairs\<close>).
  The embedding follows \<^verbatim>\<open>src/index.ts\<close> function by function and local variable by
  local variable.

  Conventions of the embedding:
  \<^item> a JavaScript string is a \<open>string\<close>, one \<open>char\<close> per code unit (code units below 256);
  \<^item> an interface is a record whose fields carry a short prefix, since several interfaces
    share the field names \<open>name\<close>, \<open>type\<close> and \<open>url\<close>;
  \<^item> the network is a parameter \<open>fetch\<close>, a function from the requested URL to what
    the request yields; every helper returns the list of URLs it requested next to its
    value, so that "no upstream call was made" is the statement that this list is empty;
  \<^item> a \<open>throw\<close> inside a \<open>try\<close> is the \<open>Inl\<close> branch of a sum, and the \<open>catch\<close> is the
    case distinction on it. The output of \<open>console.error\<close> is not part of the model.
\<close>

subsection \<open>Data model\<close>

record Character =
  ch_id :: int
  ch_name :: string
  ch_type :: string
  ch_url :: string
  ch_episode :: "string list"

record Location =
  loc_id :: int
  loc_name :: string
  loc_type :: string
  loc_url :: string

record Episode =
  ep_name :: string
  ep_type :: string
  ep_url :: string

text \<open>The union type \<open>Character | Location | Episode\<close> that \<open>searchResource\<close> returns.\<close>

datatype Resource = IsCharacter Character | IsLocation Location | IsEpisode Episode

text \<open>
  The handler of \<open>/search\<close> reads \<open>.name\<close> and \<open>.url\<close> of a resource after an unchecked
  cast; every member of the union has both fields.
\<close>

fun resource_name :: "Resource \<Rightarrow> string" where
  "resource_name (IsCharacter c) = ch_name c"
| "resource_name (IsLocation l) = loc_name l"
| "resource_name (IsEpisode e) = ep_name e"

fun resource_url :: "Resource \<Rightarrow> string" where
  "resource_url (IsCharacter c) = ch_url c"
| "resource_url (IsLocation l) = loc_url l"
| "resource_url (IsEpisode e) = ep_url e"

datatype ResultType = TyCharacter | TyLocation | TyEpisode

record SearchResult =
  sr_name :: string
  sr_type :: ResultType
  sr_url :: string

text \<open>The anonymous object type \<open>{name, url}\<close> of the two sides of a pair.\<close>

record NameUrl =
  name :: string
  url :: string

record CharacterPair =
  character1 :: NameUrl
  character2 :: NameUrl
  episodes :: nat

text \<open>The anonymous element type of the local array \<open>charactersWithEpisodes\<close>.\<close>

record CharacterWithEpisodes =
  we_id :: int
  we_name :: string
  we_url :: string
  we_episodes :: "string list"

record Info =
  info_count :: nat
  info_pages :: nat
  info_next :: "string option"
  info_prev :: "string option"

text \<open>
  \<open>ApiResponse<T>\<close>, with the type of its field \<open>results\<close> as the parameter, since the two
  helpers are read at two levels.
  \<^item> For \<open>getAllCharacters\<close> the field is typed as the cast declares it
    (\<open>as ApiResponse<Character>\<close>, \<open>results: T[]\<close>). The helper reads it as
    \<open>data.results || []\<close>, so an absent (falsy) field is part of the model: \<open>None\<close>.
  \<^item> For \<open>searchResource\<close> the field is the decoded JSON value as it arrives, before the
    unchecked cast: the statements about \<open>/search\<close> are about malformed bodies, and a value
    that is not an array, or a null item, makes the handler throw.
\<close>

record 'r ApiResponse =
  info :: Info
  results :: 'r

text \<open>
  \<open>data.results\<close> as a decoded JSON value: a falsy value (the field is absent, or is
  \<open>null\<close>, \<open>false\<close>, \<open>0\<close> or the empty string), a truthy value that is not an array
  (a number, a string, \<open>true\<close>, an object), or an array. An item of the array is an object
  of the declared interfaces, or \<open>null\<close> (\<open>None\<close>).
\<close>

datatype 'a JsonResults = Falsy | NotArray | Array "'a option list"

text \<open>
  What \<open>await fetch(url)\<close> yields: the promise rejects (transport failure, with the
  message of the error), or there is a response with its status, its status text and
  what \<open>await response.json()\<close> and the read of \<open>data.results\<close> yield: \<open>Inl\<close> the message
  of the error when the body does not decode (or decodes to \<open>null\<close>, whose field cannot be
  read), \<open>Inr\<close> the decoded body.
\<close>

datatype 'r FetchResult =
  Rejected string
| Response nat string "string + 'r ApiResponse"

type_synonym 'a fetch = "string \<Rightarrow> 'a list option FetchResult"

type_synonym 'a jsonFetch = "string \<Rightarrow> 'a JsonResults FetchResult"

text \<open>\<open>response.ok\<close>: the status is in the range 200 to 299.\<close>

definition response_ok :: "nat \<Rightarrow> bool" where
  "response_ok status = (200 \<le> status \<and> status \<le> 299)"

text \<open>
  What a handler sends: \<open>res.json(items)\<close> is status 200 with the array,
  \<open>res.status(n).json({error: msg})\<close> is status \<open>n\<close> with the error object.
\<close>

datatype 'a Payload = Items "'a list" | ErrorObject string

datatype 'a Reply = Reply nat "'a Payload"

definition BASE_URL :: string where
  "BASE_URL = ''https://rickandmortyapi.com/api''"

subsection \<open>JavaScript numbers and \<open>Number.parseInt\<close>\<close>

text \<open>
  The numbers of the handlers are results of \<open>Number.parseInt(s, 10)\<close>, the literals
  \<open>0\<close>, \<open>20\<close> and \<open>Infinity\<close>, and array lengths. \<open>Finite n\<close> stands for the double
  nearest to the integer \<open>n\<close>; rounding to the nearest double is monotone and fixes every
  integer of magnitude below \<open>2^53\<close>, so the comparisons of the handlers against array
  lengths have the value they have on the integers.
\<close>

datatype JSNumber = NaN | Finite int | PosInfinity | NegInfinity

definition Number_isFinite :: "JSNumber \<Rightarrow> bool" where
  "Number_isFinite x = (case x of Finite _ \<Rightarrow> True | _ \<Rightarrow> False)"

text \<open>The relational operators \<open><\<close> and \<open><=\<close> on numbers: false when a side is NaN.\<close>

fun js_less :: "JSNumber \<Rightarrow> JSNumber \<Rightarrow> bool" where
  "js_less NaN _ = False"
| "js_less _ NaN = False"
| "js_less (Finite a) (Finite b) = (a < b)"
| "js_less _ NegInfinity = False"
| "js_less PosInfinity _ = False"
| "js_less NegInfinity _ = True"
| "js_less _ PosInfinity = True"

fun js_less_eq :: "JSNumber \<Rightarrow> JSNumber \<Rightarrow> bool" where
  "js_less_eq NaN _ = False"
| "js_less_eq _ NaN = False"
| "js_less_eq (Finite a) (Finite b) = (a \<le> b)"
| "js_less_eq NegInfinity _ = True"
| "js_less_eq _ PosInfinity = True"
| "js_less_eq _ NegInfinity = False"
| "js_less_eq PosInfinity _ = False"

text \<open>Truthiness of a number (\<open>limit ? ... : ...\<close>): every number but 0 and NaN.\<close>

definition js_truthy :: "JSNumber \<Rightarrow> bool" where
  "js_truthy x = (x \<noteq> NaN \<and> x \<noteq> Finite 0)"

text \<open>
  The white space that \<open>parseInt\<close> skips (\<open>StrWhiteSpaceChar\<close>), among the code units
  below 256: TAB, LF, VT, FF, CR, SP and NBSP.
\<close>

definition isStrWhiteSpaceChar :: "char \<Rightarrow> bool" where
  "isStrWhiteSpaceChar c = (of_char c \<in> {9, 10, 11, 12, 13, 32, 160 :: nat})"

definition isDigit :: "char \<Rightarrow> bool" where
  "isDigit c = (48 \<le> (of_char c :: nat) \<and> (of_char c :: nat) \<le> 57)"

definition digitValue :: "char \<Rightarrow> int" where
  "digitValue c = int (of_char c) - 48"

text \<open>The integer that a string of decimal digits denotes.\<close>

definition digitsValue :: "string \<Rightarrow> int" where
  "digitsValue ds = foldl (\<lambda>acc c. 10 * acc + digitValue c) 0 ds"

text \<open>
  The least magnitude that rounds to \<open>Infinity\<close> as a double (round to nearest, ties to
  even): halfway between the largest double \<open>2^1024 - 2^971\<close> and \<open>2^1024\<close>.
\<close>

definition DOUBLE_OVERFLOW :: int where
  "DOUBLE_OVERFLOW = 2 ^ 1024 - 2 ^ 970"

text \<open>
  \<open>Number.parseInt(s, 10)\<close> (ECMAScript \<open>parseInt\<close> with radix 10): skip leading white
  space, read an optional sign, take the longest prefix of decimal digits and ignore what
  follows it; NaN when there is no digit.
\<close>

definition parseInt :: "string \<Rightarrow> JSNumber" where
  "parseInt inputString =
     (let S = dropWhile isStrWhiteSpaceChar inputString;
          negative = (S \<noteq> [] \<and> hd S = CHR ''-'');
          S' = (if S \<noteq> [] \<and> (hd S = CHR ''+'' \<or> hd S = CHR ''-'') then tl S else S);
          Z = takeWhile isDigit S'
      in if Z = [] then NaN
         else if DOUBLE_OVERFLOW \<le> digitsValue Z
           then (if negative then NegInfinity else PosInfinity)
         else Finite (if negative then - digitsValue Z else digitsValue Z))"

subsection \<open>Array operations\<close>

text \<open>
  \<open>Array.prototype.sort(compareFn)\<close> is stable (ECMAScript 2019), so with a consistent
  comparator its result is the one stable sorted arrangement of the array, which insertion
  from the right computes: an element goes before the first element it does not compare
  greater than.
\<close>

fun insert_sorted :: "('a \<Rightarrow> 'a \<Rightarrow> int) \<Rightarrow> 'a \<Rightarrow> 'a list \<Rightarrow> 'a list" where
  "insert_sorted compareFn x [] = [x]"
| "insert_sorted compareFn x (y # ys) =
     (if compareFn x y \<le> 0 then x # y # ys else y # insert_sorted compareFn x ys)"

definition array_sort :: "('a \<Rightarrow> 'a \<Rightarrow> int) \<Rightarrow> 'a list \<Rightarrow> 'a list" where
  "array_sort compareFn xs = foldr (insert_sorted compareFn) xs []"

text \<open>
  \<open>xs.slice(0, end)\<close>: the end is made an integer (NaN is 0), a negative end counts from
  the length, and the result stops at the length.
\<close>

definition array_slice0 :: "'a list \<Rightarrow> JSNumber \<Rightarrow> 'a list" where
  "array_slice0 xs final =
     (case final of
        NaN \<Rightarrow> []
      | NegInfinity \<Rightarrow> []
      | PosInfinity \<Rightarrow> xs
      | Finite n \<Rightarrow> (if n < 0 then take (nat (int (length xs) + n)) xs else take (nat n) xs))"

text \<open>
  \<open>xs.forEach(x => results.push(f(x)))\<close>: the array \<open>results\<close> is threaded through the
  loop and grows at its end.
\<close>

definition forEach_push :: "('a \<Rightarrow> 'b) \<Rightarrow> 'a list \<Rightarrow> 'b list \<Rightarrow> 'b list" where
  "forEach_push f xs results0 = foldl (\<lambda>acc x. acc @ [f x]) results0 xs"

subsection \<open>\<open>encodeURIComponent\<close>\<close>

text \<open>
  Letters, digits and \<open>- _ . ! ~ * ' ( )\<close> stay; every other code unit is written as the
  bytes of its UTF-8 encoding, each as \<open>%XX\<close>. Code units below 256 take one or two
  bytes, and there is no lone surrogate among them, so the function does not throw.
\<close>

definition uriUnreserved :: "char \<Rightarrow> bool" where
  "uriUnreserved c =
     (let n = (of_char c :: nat)
      in (65 \<le> n \<and> n \<le> 90) \<or> (97 \<le> n \<and> n \<le> 122) \<or> (48 \<le> n \<and> n \<le> 57)
         \<or> n \<in> {45, 95, 46, 33, 126, 42, 39, 40, 41})"

definition hexDigit :: "nat \<Rightarrow> char" where
  "hexDigit n = (''0123456789ABCDEF'' ! (n mod 16))"

definition percentByte :: "nat \<Rightarrow> string" where
  "percentByte b = [CHR ''%'', hexDigit (b div 16), hexDigit b]"

definition encodeUnit :: "char \<Rightarrow> string" where
  "encodeUnit c =
     (let n = (of_char c :: nat)
      in if uriUnreserved c then [c]
         else if n < 128 then percentByte n
         else percentByte (192 + n div 64) @ percentByte (128 + n mod 64))"

definition encodeURIComponent :: "string \<Rightarrow> string" where
  "encodeURIComponent s = concat (map encodeUnit s)"

subsection \<open>The upstream helpers\<close>

text \<open>
  The URL of a search by name, the template string of \<open>searchResource\<close>. Then the body
  of its \<open>try\<close>: the URL it requests, and either the message of the error thrown
  (\<open>Inl\<close>) or the value returned (\<open>Inr\<close>).
\<close>

definition searchRequest :: "string \<Rightarrow> string \<Rightarrow> string" where
  "searchRequest resourceType searchTerm =
     BASE_URL @ ''/'' @ resourceType @ ''/?name='' @ encodeURIComponent searchTerm"

definition searchResource_try ::
  "Resource jsonFetch \<Rightarrow> string \<Rightarrow> string
     \<Rightarrow> string list \<times> (string + Resource JsonResults)" where
  "searchResource_try fetch resourceType searchTerm =
     (let request = searchRequest resourceType searchTerm
      in ([request],
          case fetch request of
            Rejected message \<Rightarrow> Inl message
          | Response status statusText json \<Rightarrow>
              if status = 404 then Inr (Array [])
              else if \<not> response_ok status
                then Inl (''Failed to fetch '' @ resourceType @ '': '' @ statusText)
              else (case json of
                      Inl message \<Rightarrow> Inl message
                    | Inr data \<Rightarrow>
                        Inr (case results data of Falsy \<Rightarrow> Array [] | found \<Rightarrow> found))))"

text \<open>
  \<open>searchResource\<close>: the \<open>catch\<close> logs the error and returns the empty array. What the
  helper returns is an array or, after the unchecked cast, a truthy value that is not one.
\<close>

definition searchResource ::
  "Resource jsonFetch \<Rightarrow> string \<Rightarrow> string \<Rightarrow> string list \<times> Resource JsonResults" where
  "searchResource fetch resourceType searchTerm =
     (case searchResource_try fetch resourceType searchTerm of
        (requests, Inl error) \<Rightarrow> (requests, Array [])
      | (requests, Inr found) \<Rightarrow> (requests, found))"

text \<open>The body of the \<open>try\<close> of \<open>getAllCharacters\<close>: one request, for \<open>/character/\<close>.\<close>

definition getAllCharacters_try ::
  "Character fetch \<Rightarrow> string list \<times> (string + Character list)" where
  "getAllCharacters_try fetch =
     (let request = BASE_URL @ ''/character/''
      in ([request],
          case fetch request of
            Rejected message \<Rightarrow> Inl message
          | Response status statusText json \<Rightarrow>
              if status = 404 then Inr []
              else if \<not> response_ok status
                then Inl (''Failed to fetch charactes: '' @ statusText)
              else (case json of
                      Inl message \<Rightarrow> Inl message
                    | Inr data \<Rightarrow> Inr (case results data of None \<Rightarrow> [] | Some rs \<Rightarrow> rs))))"

definition getAllCharacters :: "Character fetch \<Rightarrow> string list \<times> Character list" where
  "getAllCharacters fetch =
     (case getAllCharacters_try fetch of
        (requests, Inl error) \<Rightarrow> (requests, [])
      | (requests, Inr found) \<Rightarrow> (requests, found))"

subsection \<open>The handler of \<open>/search\<close>\<close>

definition tagCharacter :: "Resource \<Rightarrow> SearchResult" where
  "tagCharacter character =
     \<lparr>sr_name = resource_name character, sr_type = TyCharacter, sr_url = resource_url character\<rparr>"

definition tagLocation :: "Resource \<Rightarrow> SearchResult" where
  "tagLocation location =
     \<lparr>sr_name = resource_name location, sr_type = TyLocation, sr_url = resource_url location\<rparr>"

definition tagEpisode :: "Resource \<Rightarrow> SearchResult" where
  "tagEpisode episode =
     \<lparr>sr_name = resource_name episode, sr_type = TyEpisode, sr_url = resource_url episode\<rparr>"

text \<open>
  \<open>found.forEach(item => results.push(tag(item)))\<close> on what a search returned. Reading
  \<open>.name\<close> of a \<open>null\<close> item throws a TypeError, and so does calling \<open>forEach\<close> on a
  value that is not an array; the exception leaves the loop (\<open>Inl\<close>).
\<close>

fun forEach_tag ::
  "(Resource \<Rightarrow> SearchResult) \<Rightarrow> Resource option list \<Rightarrow> SearchResult list
     \<Rightarrow> string + SearchResult list" where
  "forEach_tag tag [] results0 = Inr results0"
| "forEach_tag tag (None # items) results0 = Inl ''TypeError''"
| "forEach_tag tag (Some item # items) results0 = forEach_tag tag items (results0 @ [tag item])"

definition forEach_found ::
  "(Resource \<Rightarrow> SearchResult) \<Rightarrow> Resource JsonResults \<Rightarrow> SearchResult list
     \<Rightarrow> string + SearchResult list" where
  "forEach_found tag found results0 =
     (case found of
        Array items \<Rightarrow> forEach_tag tag items results0
      | _ \<Rightarrow> Inl ''TypeError'')"

text \<open>
  The \<open>try\<close> block of the handler, with \<open>limit\<close> as the validation left it (\<open>None\<close> is
  \<open>null\<close>): the requests sent, and either the error thrown (\<open>Inl\<close>) or the array passed to
  \<open>res.json\<close> (\<open>Inr\<close>). The three searches start in the order character, location,
  episode, and none of them throws; the three loops run after all three have returned.
\<close>

definition search_try ::
  "Resource jsonFetch \<Rightarrow> string \<Rightarrow> JSNumber option
     \<Rightarrow> string list \<times> (string + SearchResult list)" where
  "search_try fetch searchTerm limit =
     (let (requests1, characters) = searchResource fetch ''character'' searchTerm;
          (requests2, locations) = searchResource fetch ''location'' searchTerm;
          (requests3, episodes) = searchResource fetch ''episode'' searchTerm
      in (requests1 @ requests2 @ requests3,
          case forEach_found tagCharacter characters [] of
            Inl error \<Rightarrow> Inl error
          | Inr results1 \<Rightarrow>
          (case forEach_found tagLocation locations results1 of
            Inl error \<Rightarrow> Inl error
          | Inr results2 \<Rightarrow>
          (case forEach_found tagEpisode episodes results2 of
            Inl error \<Rightarrow> Inl error
          | Inr results3 \<Rightarrow>
              Inr (case limit of
                     None \<Rightarrow> results3
                   | Some l \<Rightarrow> if js_truthy l then array_slice0 results3 l else results3)))))"

text \<open>
  The \<open>try\<close> with its \<open>catch\<close>: an error thrown in the block is logged and answered with
  status 500.
\<close>

definition search_respond ::
  "Resource jsonFetch \<Rightarrow> string \<Rightarrow> JSNumber option \<Rightarrow> string list \<times> SearchResult Reply" where
  "search_respond fetch searchTerm limit =
     (case search_try fetch searchTerm limit of
        (requests, Inl error) \<Rightarrow> (requests, Reply 500 (ErrorObject ''Internal server error''))
      | (requests, Inr limitedResults) \<Rightarrow> (requests, Reply 200 (Items limitedResults)))"

definition search ::
  "Resource jsonFetch \<Rightarrow> string option \<Rightarrow> string option
     \<Rightarrow> string list \<times> SearchResult Reply" where
  "search fetch term limitRaw =
     (case term of
        None \<Rightarrow> ([], Reply 400 (ErrorObject ''Missing 'term' query parameter''))
      | Some searchTerm \<Rightarrow>
          if searchTerm = [] then ([], Reply 400 (ErrorObject ''Missing 'term' query parameter''))
          else (case limitRaw of
                  None \<Rightarrow> search_respond fetch searchTerm None
                | Some raw \<Rightarrow>
                    (let limit = parseInt raw
                     in if \<not> Number_isFinite limit \<or> js_less_eq limit (Finite 0)
                        then ([], Reply 400
                               (ErrorObject ''Query parameter 'limit' must be a positive integer''))
                        else search_respond fetch searchTerm (Some limit))))"

subsection \<open>The handler of \<open>/top-pairs\<close>\<close>

definition withEpisodes :: "Character \<Rightarrow> CharacterWithEpisodes" where
  "withEpisodes character =
     \<lparr>we_id = ch_id character, we_name = ch_name character, we_url = ch_url character,
      we_episodes = ch_episode character\<rparr>"

definition charactersWithEpisodes :: "Character list \<Rightarrow> CharacterWithEpisodes list" where
  "charactersWithEpisodes allCharacters = forEach_push withEpisodes allCharacters []"

text \<open>
  The local \<open>commonEpisodes\<close> of the inner loop: the entries of the episode list of
  \<open>character1\<close> (here \<open>characterA\<close>, as \<open>character1\<close> is a field of the pair) that the
  set built from the episode list of \<open>character2\<close> (here \<open>characterB\<close>) has.
\<close>

definition commonEpisodes :: "CharacterWithEpisodes \<Rightarrow> CharacterWithEpisodes \<Rightarrow> string list" where
  "commonEpisodes characterA characterB =
     (let characterBEpisodeSet = set (we_episodes characterB)
      in filter (\<lambda>ep. ep \<in> characterBEpisodeSet) (we_episodes characterA))"

text \<open>The object that the inner loop pushes.\<close>

definition pairOf :: "CharacterWithEpisodes \<Rightarrow> CharacterWithEpisodes \<Rightarrow> CharacterPair" where
  "pairOf characterA characterB =
     \<lparr>character1 = \<lparr>name = we_name characterA, url = we_url characterA\<rparr>,
      character2 = \<lparr>name = we_name characterB, url = we_url characterB\<rparr>,
      episodes = length (commonEpisodes characterA characterB)\<rparr>"

text \<open>The body of the inner \<open>forEach\<close>, as a step on the array \<open>charactersPairs\<close>.\<close>

definition pairStep ::
  "CharacterWithEpisodes \<Rightarrow> CharacterPair list \<Rightarrow> CharacterWithEpisodes \<Rightarrow> CharacterPair list" where
  "pairStep characterA pairs characterB =
     (if we_id characterA < we_id characterB
      then (if length (commonEpisodes characterA characterB) > 0
            then pairs @ [pairOf characterA characterB]
            else pairs)
      else pairs)"

text \<open>The two nested \<open>forEach\<close> loops over \<open>charactersWithEpisodes\<close>.\<close>

definition charactersPairs :: "CharacterWithEpisodes list \<Rightarrow> CharacterPair list" where
  "charactersPairs cs = foldl (\<lambda>pairs characterA. foldl (pairStep characterA) pairs cs) [] cs"

text \<open>The comparator of the sort, \<open>(a, b) => b.episodes - a.episodes\<close>.\<close>

definition compareEpisodes :: "CharacterPair \<Rightarrow> CharacterPair \<Rightarrow> int" where
  "compareEpisodes a b = int (episodes b) - int (episodes a)"

definition sortedPairs :: "CharacterPair list \<Rightarrow> CharacterPair list" where
  "sortedPairs pairs = array_sort compareEpisodes pairs"

definition filteredPairs :: "JSNumber \<Rightarrow> JSNumber \<Rightarrow> CharacterPair list \<Rightarrow> CharacterPair list" where
  "filteredPairs minEpisodes maxEpisodes ranked =
     filter (\<lambda>pair. js_less_eq minEpisodes (Finite (int (episodes pair)))
                  \<and> js_less_eq (Finite (int (episodes pair))) maxEpisodes) ranked"

text \<open>
  What the \<open>try\<close> block computes from the loaded characters: pairing, sorting, filtering
  and limiting.
\<close>

definition limitedResults ::
  "JSNumber \<Rightarrow> JSNumber \<Rightarrow> JSNumber \<Rightarrow> Character list \<Rightarrow> CharacterPair list" where
  "limitedResults minEpisodes maxEpisodes limit allCharacters =
     array_slice0
       (filteredPairs minEpisodes maxEpisodes
          (sortedPairs (charactersPairs (charactersWithEpisodes allCharacters))))
       limit"

text \<open>
  The \<open>try\<close> block of the handler. \<open>getAllCharacters\<close> does not throw, and the typed
  characters make no step of the block throw, so the \<open>catch\<close> that answers 500 is not
  reached in the model.
\<close>

definition top_pairs_try ::
  "Character fetch \<Rightarrow> JSNumber \<Rightarrow> JSNumber \<Rightarrow> JSNumber \<Rightarrow> string list \<times> CharacterPair Reply" where
  "top_pairs_try fetch minEpisodes maxEpisodes limit =
     (let (requests, allCharacters) = getAllCharacters fetch
      in (requests, Reply 200 (Items (limitedResults minEpisodes maxEpisodes limit allCharacters))))"

definition top_pairs ::
  "Character fetch \<Rightarrow> string option \<Rightarrow> string option \<Rightarrow> string option
     \<Rightarrow> string list \<times> CharacterPair Reply" where
  "top_pairs fetch minEpisodesRaw maxEpisodesRaw limitRaw =
     (let minEpisodes = (case minEpisodesRaw of None \<Rightarrow> Finite 0 | Some raw \<Rightarrow> parseInt raw)
      in if minEpisodesRaw \<noteq> None
            \<and> (\<not> Number_isFinite minEpisodes \<or> js_less minEpisodes (Finite 0))
         then ([], Reply 400
                (ErrorObject ''Query parameter 'min' must be a non-negative integer''))
         else
     (let maxEpisodes = (case maxEpisodesRaw of None \<Rightarrow> PosInfinity | Some raw \<Rightarrow> parseInt raw)
      in if maxEpisodesRaw \<noteq> None
            \<and> (\<not> Number_isFinite maxEpisodes \<or> js_less maxEpisodes (Finite 0))
         then ([], Reply 400
                (ErrorObject ''Query parameter 'max' must be a non-negative integer''))
         else
     (let limit = (case limitRaw of None \<Rightarrow> Finite 20 | Some raw \<Rightarrow> parseInt raw)
      in if limitRaw \<noteq> None
            \<and> (\<not> Number_isFinite limit \<or> js_less_eq limit (Finite 0))
         then ([], Reply 400
                (ErrorObject ''Query parameter 'limit' must be a positive integer''))
         else top_pairs_try fetch minEpisodes maxEpisodes limit)))"

subsection \<open>The validation conditions of \<open>/top-pairs\<close>\<close>

text \<open>
  The two conditions under which the handler answers 400 for a parameter that is present:
  \<open>!Number.isFinite(x) || x < 0\<close> for \<open>min\<close> and \<open>max\<close>, and
  \<open>!Number.isFinite(x) || x <= 0\<close> for \<open>limit\<close>, with \<open>x\<close> the result of \<open>parseInt\<close>.
\<close>

definition rejectsNegative :: "string option \<Rightarrow> bool" where
  "rejectsNegative raw =
     (case raw of
        None \<Rightarrow> False
      | Some s \<Rightarrow> \<not> Number_isFinite (parseInt s) \<or> js_less (parseInt s) (Finite 0))"

definition rejectsNonPositive :: "string option \<Rightarrow> bool" where
  "rejectsNonPositive raw =
     (case raw of
        None \<Rightarrow> False
      | Some s \<Rightarrow> \<not> Number_isFinite (parseInt s) \<or> js_less_eq (parseInt s) (Finite 0))"

text \<open>
  The strings that \<open>parseInt\<close> reads as a number, split into their parts: white space,
  an optional sign, a non-empty run of decimal digits, and a rest that does not start
  with a digit.
\<close>

definition signedDigits :: "string \<Rightarrow> string \<Rightarrow> string \<Rightarrow> string \<Rightarrow> bool" where
  "signedDigits ws sg ds rest =
     (list_all isStrWhiteSpaceChar ws \<and> (sg = [] \<or> sg = ''+'' \<or> sg = ''-'')
      \<and> ds \<noteq> [] \<and> list_all isDigit ds \<and> (case rest of [] \<Rightarrow> True | c # _ \<Rightarrow> \<not> isDigit c))"

subsection \<open>The trace of the pairing loops\<close>

text \<open>
  For the statements about \<open>charactersPairs\<close>: the pairs (first the character of the
  outer loop, then the character of the inner loop) for which the body pushes, in the
  order of the pushes. A pushed object keeps only the names and URLs of the two.
\<close>

definition pairSources :: "CharacterWithEpisodes list \<Rightarrow> (CharacterWithEpisodes \<times> CharacterWithEpisodes) list" where
  "pairSources cs =
     concat (map (\<lambda>a. map (Pair a)
       (filter (\<lambda>b. we_id a < we_id b \<and> commonEpisodes a b \<noteq> []) cs)) cs)"

subsection \<open>Vocabulary of the specification\<close>

text \<open>
  For the refinement statement about filtering and limiting: the pairs of the ranked list
  whose count is at least \<open>minShared\<close> and at most \<open>maxShared\<close> (\<open>None\<close> is no upper
  bound), cut to the first \<open>limit\<close>.
\<close>

definition spec_filter_limit ::
  "nat \<Rightarrow> nat option \<Rightarrow> nat \<Rightarrow> CharacterPair list \<Rightarrow> CharacterPair list" where
  "spec_filter_limit minShared maxShared limit ranked =
     take limit
       (filter (\<lambda>p. minShared \<le> episodes p
                   \<and> (case maxShared of None \<Rightarrow> True | Some m \<Rightarrow> episodes p \<le> m)) ranked)"

text \<open>
  The specification tells "not found" (status 404) from an upstream error: transport
  failure, a status outside 200 to 299 other than 404, or a body that does not decode.
  \<open>spec_hits\<close> is what the character collection contributes according to the
  specification: nothing in both cases, and otherwise the results of the decoded body.
\<close>

definition notFound :: "'a FetchResult \<Rightarrow> bool" where
  "notFound r = (case r of Rejected _ \<Rightarrow> False | Response status _ _ \<Rightarrow> status = 404)"

definition upstreamFailure :: "'a FetchResult \<Rightarrow> bool" where
  "upstreamFailure r =
     (case r of
        Rejected _ \<Rightarrow> True
      | Response status _ json \<Rightarrow>
          status \<noteq> 404 \<and> (\<not> response_ok status \<or> (case json of Inl _ \<Rightarrow> True | Inr _ \<Rightarrow> False)))"

definition spec_hits :: "'a list option FetchResult \<Rightarrow> 'a list" where
  "spec_hits r =
     (if notFound r \<or> upstreamFailure r then []
      else (case r of
              Response _ _ (Inr data) \<Rightarrow> (case results data of None \<Rightarrow> [] | Some rs \<Rightarrow> rs)
            | _ \<Rightarrow> []))"

text \<open>
  The loader as the specification words it (section 4.2): request a page, take its items
  and follow its \<open>next\<close> cursor until there is none, concatenating the items in the order
  received. The fuel bounds the number of pages requested; \<open>None\<close> is a load that fails
  at some page or runs out of fuel.
\<close>

fun spec_loadAll :: "nat \<Rightarrow> 'a fetch \<Rightarrow> string \<Rightarrow> 'a list option" where
  "spec_loadAll 0 fetch page = None"
| "spec_loadAll (Suc fuel) fetch page =
     (case fetch page of
        Rejected _ \<Rightarrow> None
      | Response status _ json \<Rightarrow>
          if \<not> response_ok status then None
          else (case json of
                  Inl _ \<Rightarrow> None
                | Inr data \<Rightarrow>
                    (let items = (case results data of None \<Rightarrow> [] | Some rs \<Rightarrow> rs)
                     in case info_next (info data) of
                          None \<Rightarrow> Some items
                        | Some cursor \<Rightarrow>
                            (case spec_loadAll fuel fetch cursor of
                               None \<Rightarrow> None
                             | Some rest \<Rightarrow> Some (items @ rest)))))"

subsection \<open>Example inputs\<close>

text \<open>
  Scenario D of the specification: A and B share one episode, C shares none. Then two
  characters of which the first lists the same episode twice.
\<close>

definition exA :: CharacterWithEpisodes where
  "exA = \<lparr>we_id = 1, we_name = ''A'', we_url = ''uA'', we_episodes = [''e1'', ''e2'']\<rparr>"

definition exB :: CharacterWithEpisodes where
  "exB = \<lparr>we_id = 2, we_name = ''B'', we_url = ''uB'', we_episodes = [''e2'', ''e3'']\<rparr>"

definition exC :: CharacterWithEpisodes where
  "exC = \<lparr>we_id = 3, we_name = ''C'', we_url = ''uC'', we_episodes = [''e4'']\<rparr>"

definition dupA :: CharacterWithEpisodes where
  "dupA = \<lparr>we_id = 1, we_name = ''A'', we_url = ''uA'', we_episodes = [''e1'', ''e1'']\<rparr>"

definition dupB :: CharacterWithEpisodes where
  "dupB = \<lparr>we_id = 2, we_name = ''B'', we_url = ''uB'', we_episodes = [''e1'']\<rparr>"

text \<open>
  Episode references; three characters who all appear in the first episode only; three
  characters of whom Rick and Summer share five episodes and Morty shares two with each.
\<close>

definition E1 :: string where "E1 = ''https://rickandmortyapi.com/api/episode/1''"

definition E2 :: string where "E2 = ''https://rickandmortyapi.com/api/episode/2''"

definition E3 :: string where "E3 = ''https://rickandmortyapi.com/api/episode/3''"

definition E4 :: string where "E4 = ''https://rickandmortyapi.com/api/episode/4''"

definition E5 :: string where "E5 = ''https://rickandmortyapi.com/api/episode/5''"

definition tie1 :: Character where
  "tie1 = \<lparr>ch_id = 1, ch_name = ''Rick'', ch_type = [], ch_url = ''c1'', ch_episode = [E1]\<rparr>"

definition tie2 :: Character where
  "tie2 = \<lparr>ch_id = 2, ch_name = ''Morty'', ch_type = [], ch_url = ''c2'', ch_episode = [E1]\<rparr>"

definition tie3 :: Character where
  "tie3 = \<lparr>ch_id = 3, ch_name = ''Summer'', ch_type = [], ch_url = ''c3'', ch_episode = [E1]\<rparr>"

definition chRick :: Character where
  "chRick = \<lparr>ch_id = 1, ch_name = ''Rick Sanchez'', ch_type = [],
     ch_url = ''https://rickandmortyapi.com/api/character/1'',
     ch_episode = [E1, E2, E3, E4, E5]\<rparr>"

definition chMorty :: Character where
  "chMorty = \<lparr>ch_id = 2, ch_name = ''Morty Smith'', ch_type = [],
     ch_url = ''https://rickandmortyapi.com/api/character/2'',
     ch_episode = [E1, E2]\<rparr>"

definition chSummer :: Character where
  "chSummer = \<lparr>ch_id = 3, ch_name = ''Summer Smith'', ch_type = [],
     ch_url = ''https://rickandmortyapi.com/api/character/3'',
     ch_episode = [E1, E2, E3, E4, E5]\<rparr>"

text \<open>
  Upstreams for the loader: one whose character collection is one page of three
  characters, one that answers every request with status 500, and one whose character
  collection has two pages of one character each, the first page pointing to the second
  with its \<open>next\<close> cursor.
\<close>

definition onePage :: "Character fetch" where
  "onePage request =
     (if request = BASE_URL @ ''/character/''
      then Response 200 ''OK''
             (Inr \<lparr>info = \<lparr>info_count = 3, info_pages = 1, info_next = None, info_prev = None\<rparr>,
                   results = Some [chRick, chMorty, chSummer]\<rparr>)
      else Response 404 ''Not Found'' (Inl ''Unexpected token''))"

definition serverError :: "Character fetch" where
  "serverError request = Response 500 ''Internal Server Error'' (Inl ''Unexpected token'')"

definition twoPages :: "Character fetch" where
  "twoPages request =
     (if request = BASE_URL @ ''/character/''
      then Response 200 ''OK''
             (Inr \<lparr>info = \<lparr>info_count = 2, info_pages = 2,
                            info_next = Some (BASE_URL @ ''/character/?page=2''),
                            info_prev = None\<rparr>,
                   results = Some [tie1]\<rparr>)
      else if request = BASE_URL @ ''/character/?page=2''
      then Response 200 ''OK''
             (Inr \<lparr>info = \<lparr>info_count = 2, info_pages = 2, info_next = None,
                            info_prev = Some (BASE_URL @ ''/character/'')\<rparr>,
                   results = Some [tie2]\<rparr>)
      else Response 404 ''Not Found'' (Inl ''Unexpected token''))"

text \<open>
  Upstreams for the search of "Rick": one hit in each collection; the same with the
  character search answering 404 (scenario E of the specification); and the same with
  the character search answering 200 with a body whose \<open>results\<close> is not an array.
\<close>

definition rickHit :: Resource where
  "rickHit = IsCharacter chRick"

definition citadel :: Resource where
  "citadel = IsLocation \<lparr>loc_id = 3, loc_name = ''Citadel of Ricks'', loc_type = ''Space station'',
     loc_url = ''https://rickandmortyapi.com/api/location/3''\<rparr>"

definition ricklantis :: Resource where
  "ricklantis = IsEpisode \<lparr>ep_name = ''The Ricklantis Mixup'', ep_type = [],
     ep_url = ''https://rickandmortyapi.com/api/episode/28''\<rparr>"

definition onePageOf :: "'a JsonResults \<Rightarrow> 'a JsonResults FetchResult" where
  "onePageOf found =
     Response 200 ''OK''
       (Inr \<lparr>info = \<lparr>info_count = 1, info_pages = 1, info_next = None, info_prev = None\<rparr>,
             results = found\<rparr>)"

definition allFound :: "Resource jsonFetch" where
  "allFound request =
     (if request = searchRequest ''character'' ''Rick'' then onePageOf (Array [Some rickHit])
      else if request = searchRequest ''location'' ''Rick'' then onePageOf (Array [Some citadel])
      else if request = searchRequest ''episode'' ''Rick'' then onePageOf (Array [Some ricklantis])
      else Rejected ''fetch failed'')"



section \<open>Properties\<close>

subsection \<open>The loops as list functions\<close>

lemma forEach_push_eq: "forEach_push f xs results0 = results0 @ map f xs"
  unfolding forEach_push_def by (induction xs arbitrary: results0) simp_all

lemma charactersWithEpisodes_eq: "charactersWithEpisodes cs = map withEpisodes cs"
  by (simp add: charactersWithEpisodes_def forEach_push_eq)

lemma foldl_pairStep:
  "foldl (pairStep a) pairs bs =
     pairs @ map (pairOf a) (filter (\<lambda>b. we_id a < we_id b \<and> commonEpisodes a b \<noteq> []) bs)"
  by (induction bs arbitrary: pairs) (simp_all add: pairStep_def)

lemma foldl_outer:
  "foldl (\<lambda>pairs a. foldl (pairStep a) pairs cs) pairs0 as =
     pairs0 @ concat (map (\<lambda>a. map (pairOf a)
       (filter (\<lambda>b. we_id a < we_id b \<and> commonEpisodes a b \<noteq> []) cs)) as)"
  by (induction as arbitrary: pairs0) (simp_all add: foldl_pairStep)

lemma charactersPairs_sources:
  "charactersPairs cs = map (\<lambda>(a, b). pairOf a b) (pairSources cs)"
  by (simp add: charactersPairs_def foldl_outer pairSources_def map_concat comp_def)

lemma set_pairSources:
  "set (pairSources cs) =
     {(a, b). a \<in> set cs \<and> b \<in> set cs \<and> we_id a < we_id b \<and> commonEpisodes a b \<noteq> []}"
  by (auto simp: pairSources_def)

lemma distinct_concat_Pair:
  assumes "distinct as" and "\<And>a. a \<in> set as \<Longrightarrow> distinct (f a)"
  shows "distinct (concat (map (\<lambda>a. map (Pair a) (f a)) as))"
  using assms
proof (induction as)
  case Nil
  then show ?case by simp
next
  case (Cons a as)
  have "distinct (map (Pair a) (f a))"
    using Cons.prems(2) by (simp add: distinct_map inj_on_def)
  moreover have "distinct (concat (map (\<lambda>a. map (Pair a) (f a)) as))"
    using Cons by simp
  moreover have "set (map (Pair a) (f a)) \<inter> set (concat (map (\<lambda>a. map (Pair a) (f a)) as)) = {}"
    using Cons.prems(1) by auto
  ultimately show ?case by simp
qed

lemma distinct_pairSources: "distinct cs \<Longrightarrow> distinct (pairSources cs)"
  unfolding pairSources_def by (rule distinct_concat_Pair) simp_all

lemma commonEpisodes_Nil_iff:
  "commonEpisodes a b = [] \<longleftrightarrow> set (we_episodes a) \<inter> set (we_episodes b) = {}"
  by (auto simp: commonEpisodes_def filter_empty_conv)

lemma episodes_pairOf: "episodes (pairOf a b) = length (commonEpisodes a b)"
  by (simp add: pairOf_def)

lemma length_commonEpisodes_distinct:
  "distinct (we_episodes a) \<Longrightarrow>
     length (commonEpisodes a b) = card (set (we_episodes a) \<inter> set (we_episodes b))"
proof -
  assume d: "distinct (we_episodes a)"
  have "distinct (commonEpisodes a b)"
    using d by (simp add: commonEpisodes_def)
  then have "length (commonEpisodes a b) = card (set (commonEpisodes a b))"
    by (simp add: distinct_card)
  moreover have "set (commonEpisodes a b) = set (we_episodes a) \<inter> set (we_episodes b)"
    by (auto simp: commonEpisodes_def)
  ultimately show ?thesis by simp
qed

lemma count_list_distinct:
  "distinct xs \<Longrightarrow> count_list xs x = (if x \<in> set xs then 1 else 0)"
  by (induction xs) auto

subsection \<open>Sorting and slicing\<close>

lemma insert_sorted_insort:
  "insert_sorted compareEpisodes x ys = insort_key (\<lambda>p. - int (episodes p)) x ys"
  by (induction ys) (simp_all add: compareEpisodes_def)

lemma sortedPairs_sort_key: "sortedPairs ps = sort_key (\<lambda>p. - int (episodes p)) ps"
  unfolding sortedPairs_def array_sort_def sort_key_def
  by (induction ps) (simp_all add: insert_sorted_insort)

lemma sorted_sortedPairs: "sorted_wrt (\<lambda>p q. episodes q \<le> episodes p) (sortedPairs ps)"
proof -
  have "sorted (map (\<lambda>p. - int (episodes p)) (sort_key (\<lambda>p. - int (episodes p)) ps))"
    by (rule sorted_sort_key)
  then show ?thesis
    by (simp add: sortedPairs_sort_key sorted_map)
qed

lemma array_slice0_take: "\<exists>k. array_slice0 xs l = take k xs"
  unfolding array_slice0_def by (cases l) (auto intro: exI[of _ "length xs"] exI[of _ 0])

lemma array_slice0_Finite: "0 \<le> n \<Longrightarrow> array_slice0 xs (Finite n) = take (nat n) xs"
  by (simp add: array_slice0_def)

lemma sorted_wrt_array_slice0: "sorted_wrt R xs \<Longrightarrow> sorted_wrt R (array_slice0 xs l)"
proof -
  assume s: "sorted_wrt R xs"
  obtain k where "array_slice0 xs l = take k xs" using array_slice0_take by blast
  then show ?thesis using s by (simp add: sorted_wrt_take)
qed

lemma sorted_limitedResults:
  "sorted_wrt (\<lambda>p q. episodes q \<le> episodes p) (limitedResults mn mx lim cs)"
  unfolding limitedResults_def filteredPairs_def
  by (intro sorted_wrt_array_slice0 sorted_wrt_filter sorted_sortedPairs)

lemma set_limitedResults:
  "set (limitedResults mn mx lim allCharacters)
     \<subseteq> set (charactersPairs (charactersWithEpisodes allCharacters))"
proof -
  obtain k where "limitedResults mn mx lim allCharacters =
      take k (filteredPairs mn mx
        (sortedPairs (charactersPairs (charactersWithEpisodes allCharacters))))"
    unfolding limitedResults_def using array_slice0_take by blast
  then show ?thesis
    by (auto simp: filteredPairs_def sortedPairs_sort_key dest!: in_set_takeD)
qed

lemma limitedResults_Nil: "limitedResults mn mx lim [] = []"
  by (simp add: limitedResults_def charactersWithEpisodes_def forEach_push_def
      charactersPairs_def sortedPairs_def array_sort_def filteredPairs_def array_slice0_def
      split: JSNumber.splits)

subsection \<open>The helpers and the handlers in closed form\<close>

lemma getAllCharacters_eq:
  "getAllCharacters fetch = ([BASE_URL @ ''/character/''], spec_hits (fetch (BASE_URL @ ''/character/'')))"
  by (auto simp: getAllCharacters_def getAllCharacters_try_def Let_def spec_hits_def notFound_def
      upstreamFailure_def split: FetchResult.splits sum.splits option.splits)

lemma getAllCharacters_requests: "fst (getAllCharacters fetch) = [BASE_URL @ ''/character/'']"
  by (simp add: getAllCharacters_def getAllCharacters_try_def Let_def
      split: FetchResult.splits sum.splits)

lemma spec_hits_failure: "notFound r \<or> upstreamFailure r \<Longrightarrow> spec_hits r = []"
  by (simp add: spec_hits_def)

lemma top_pairs_try_eq:
  "top_pairs_try fetch mn mx lim =
     (fst (getAllCharacters fetch),
      Reply 200 (Items (limitedResults mn mx lim (snd (getAllCharacters fetch)))))"
  by (simp add: top_pairs_try_def split: prod.splits)

lemma top_pairs_Items:
  assumes "snd (top_pairs fetch minRaw maxRaw limitRaw) = Reply status (Items out)"
  shows "\<exists>mn mx lim. out = limitedResults mn mx lim (snd (getAllCharacters fetch))"
  using assms unfolding top_pairs_def Let_def top_pairs_try_eq
  by (auto split: if_splits)

lemma forEach_tag_eq:
  "forEach_tag tag items results0 =
     (case those items of None \<Rightarrow> Inl ''TypeError'' | Some xs \<Rightarrow> Inr (results0 @ map tag xs))"
proof (induction items arbitrary: results0)
  case Nil
  then show ?case by simp
next
  case (Cons item items)
  then show ?case
    by (cases item) (simp_all split: option.splits)
qed

lemma those_map_Some: "those (map Some xs) = Some xs"
  by (induction xs) simp_all

lemma those_eq_Some: "those items = Some xs \<longleftrightarrow> items = map Some xs"
proof (induction items arbitrary: xs)
  case Nil
  then show ?case by auto
next
  case (Cons item items)
  then show ?case
    by (cases item; cases xs) (auto split: option.splits)
qed

lemma those_eq_None: "those items = None \<longleftrightarrow> None \<in> set items"
proof (induction items)
  case Nil
  then show ?case by simp
next
  case (Cons item items)
  then show ?case by (cases item) (auto split: option.splits)
qed

lemma forEach_found_Array:
  "forEach_found tag (Array (map Some xs)) results0 = Inr (results0 @ map tag xs)"
  by (simp add: forEach_found_def forEach_tag_eq those_map_Some)

lemma forEach_found_throws:
  "found = NotArray \<or> found = Falsy \<or> (\<exists>items. found = Array items \<and> None \<in> set items)
     \<Longrightarrow> forEach_found tag found results0 = Inl ''TypeError''"
  by (auto simp: forEach_found_def forEach_tag_eq those_eq_None [symmetric])

lemma forEach_found_cases:
  "(\<exists>xs. found = Array (map Some xs))
   \<or> found = NotArray \<or> found = Falsy \<or> (\<exists>items. found = Array items \<and> None \<in> set items)"
proof (cases found)
  case (Array items)
  then show ?thesis
    by (cases "those items") (auto simp: those_eq_None those_eq_Some)
qed simp_all




lemma searchResource_not_Falsy: "snd (searchResource fetch resourceType searchTerm) \<noteq> Falsy"
  by (auto simp: searchResource_def searchResource_try_def Let_def
      split: FetchResult.splits sum.splits JsonResults.splits)

lemma search_try_unfold:
  "search_try fetch searchTerm limit =
     (fst (searchResource fetch ''character'' searchTerm)
        @ fst (searchResource fetch ''location'' searchTerm)
        @ fst (searchResource fetch ''episode'' searchTerm),
      case forEach_found tagCharacter (snd (searchResource fetch ''character'' searchTerm)) [] of
        Inl error \<Rightarrow> Inl error
      | Inr results1 \<Rightarrow>
      (case forEach_found tagLocation (snd (searchResource fetch ''location'' searchTerm)) results1 of
        Inl error \<Rightarrow> Inl error
      | Inr results2 \<Rightarrow>
      (case forEach_found tagEpisode (snd (searchResource fetch ''episode'' searchTerm)) results2 of
        Inl error \<Rightarrow> Inl error
      | Inr results3 \<Rightarrow>
          Inr (case limit of
                 None \<Rightarrow> results3
               | Some l \<Rightarrow> if js_truthy l then array_slice0 results3 l else results3))))"
  by (simp add: search_try_def case_prod_beta)


lemma search_try_Arrays:
  assumes "snd (searchResource fetch ''character'' searchTerm) = Array (map Some characterHits)"
      and "snd (searchResource fetch ''location'' searchTerm) = Array (map Some locationHits)"
      and "snd (searchResource fetch ''episode'' searchTerm) = Array (map Some episodeHits)"
  shows "snd (search_try fetch searchTerm limit) =
     Inr (let merged = map tagCharacter characterHits @ map tagLocation locationHits
                       @ map tagEpisode episodeHits
          in case limit of
               None \<Rightarrow> merged
             | Some l \<Rightarrow> if js_truthy l then array_slice0 merged l else merged)"
  using assms
  by (simp add: search_try_unfold forEach_found_Array Let_def split: option.splits)

lemma search_try_throws:
  assumes "\<exists>resourceType \<in> {''character'', ''location'', ''episode''}.
             snd (searchResource fetch resourceType searchTerm) = NotArray
             \<or> (\<exists>items. snd (searchResource fetch resourceType searchTerm) = Array items
                         \<and> None \<in> set items)"
  shows "\<exists>error. snd (search_try fetch searchTerm limit) = Inl error"
proof -
  let ?c = "snd (searchResource fetch ''character'' searchTerm)"
  let ?l = "snd (searchResource fetch ''location'' searchTerm)"
  let ?e = "snd (searchResource fetch ''episode'' searchTerm)"
  have bad: "\<And>tag found r. found = NotArray \<or> (\<exists>items. found = Array items \<and> None \<in> set items)
               \<Longrightarrow> forEach_found tag found r = Inl ''TypeError''"
    by (rule forEach_found_throws) auto
  have step: "\<And>tag found r. forEach_found tag found r = Inl ''TypeError''
                \<or> (\<exists>r'. forEach_found tag found r = Inr r')"
    using forEach_found_cases forEach_found_throws forEach_found_Array by metis
  from assms consider
      "?c = NotArray \<or> (\<exists>items. ?c = Array items \<and> None \<in> set items)"
    | "?l = NotArray \<or> (\<exists>items. ?l = Array items \<and> None \<in> set items)"
    | "?e = NotArray \<or> (\<exists>items. ?e = Array items \<and> None \<in> set items)"
    by auto
  then show ?thesis
  proof cases
    case 1
    then show ?thesis
      using bad [of ?c tagCharacter "[]"]
      by (simp add: search_try_unfold)
  next
    case 2
    then show ?thesis
      using bad [of ?l tagLocation] step [of tagCharacter ?c "[]"]
      by (auto simp: search_try_unfold split: sum.splits)
  next
    case 3
    then show ?thesis
      using bad [of ?e tagEpisode] step [of tagCharacter ?c "[]"] step [of tagLocation ?l]
      by (auto simp: search_try_unfold split: sum.splits)
  qed
qed

lemma search_respond_eq:
  "search_respond fetch searchTerm limit =
     (fst (search_try fetch searchTerm limit),
      case snd (search_try fetch searchTerm limit) of
        Inl error \<Rightarrow> Reply 500 (ErrorObject ''Internal server error'')
      | Inr sent \<Rightarrow> Reply 200 (Items sent))"
  by (simp add: search_respond_def split: prod.splits sum.splits)

lemma search_valid:
  assumes "searchTerm \<noteq> []"
      and "case limitRaw of None \<Rightarrow> lim = None
           | Some raw \<Rightarrow> (\<exists>n. lim = Some n \<and> parseInt raw = Finite (int n) \<and> 0 < n)"
  shows "\<exists>limit. search fetch (Some searchTerm) limitRaw = search_respond fetch searchTerm limit
           \<and> (\<forall>merged :: SearchResult list.
                 (case limit of
                    None \<Rightarrow> merged
                  | Some l \<Rightarrow> if js_truthy l then array_slice0 merged l else merged)
                 = (case lim of None \<Rightarrow> merged | Some n \<Rightarrow> take n merged))"
proof (cases limitRaw)
  case None
  then have "lim = None" using assms(2) by simp
  then have "search fetch (Some searchTerm) limitRaw = search_respond fetch searchTerm None
           \<and> (\<forall>merged :: SearchResult list.
                 (case None of
                    None \<Rightarrow> merged
                  | Some l \<Rightarrow> if js_truthy l then array_slice0 merged l else merged)
                 = (case lim of None \<Rightarrow> merged | Some n \<Rightarrow> take n merged))"
    using assms(1) None by (simp add: search_def)
  then show ?thesis by blast
next
  case (Some raw)
  then obtain n where n: "lim = Some n" "parseInt raw = Finite (int n)" "0 < n"
    using assms(2) by auto
  then have "search fetch (Some searchTerm) limitRaw
               = search_respond fetch searchTerm (Some (Finite (int n)))
           \<and> (\<forall>merged :: SearchResult list.
                 (case Some (Finite (int n)) of
                    None \<Rightarrow> merged
                  | Some l \<Rightarrow> if js_truthy l then array_slice0 merged l else merged)
                 = (case lim of None \<Rightarrow> merged | Some n \<Rightarrow> take n merged))"
    using assms(1) Some
    by (simp add: search_def Let_def Number_isFinite_def js_truthy_def array_slice0_Finite)
  then show ?thesis by blast
qed

subsection \<open>The handlers on the example inputs\<close>

lemma parseInt_5: "parseInt ''5'' = Finite 5"
  by (simp add: parseInt_def isStrWhiteSpaceChar_def isDigit_def digitsValue_def digitValue_def
      DOUBLE_OVERFLOW_def)

lemma parseInt_2: "parseInt ''2'' = Finite 2"
  by (simp add: parseInt_def isStrWhiteSpaceChar_def isDigit_def digitsValue_def digitValue_def
      DOUBLE_OVERFLOW_def)

lemma parseInt_examples:
  "parseInt ''5abc'' = Finite 5"
  "parseInt ''abc'' = NaN"
  "parseInt ''-1'' = Finite (- 1)"
  "parseInt ''0'' = Finite 0"
  by (simp_all add: parseInt_def isStrWhiteSpaceChar_def isDigit_def digitsValue_def
      digitValue_def DOUBLE_OVERFLOW_def)

lemma getAllCharacters_onePage:
  "getAllCharacters onePage = ([BASE_URL @ ''/character/''], [chRick, chMorty, chSummer])"
  by (simp add: getAllCharacters_def getAllCharacters_try_def onePage_def response_ok_def)

lemma top_pairs_onePage:
  "top_pairs onePage None None None =
     ([BASE_URL @ ''/character/''],
      Reply 200 (Items
        [pairOf (withEpisodes chRick) (withEpisodes chSummer),
         pairOf (withEpisodes chRick) (withEpisodes chMorty),
         pairOf (withEpisodes chMorty) (withEpisodes chSummer)]))"
  by (simp add: top_pairs_def top_pairs_try_def getAllCharacters_onePage
      limitedResults_def array_slice0_def filteredPairs_def sortedPairs_def
      array_sort_def compareEpisodes_def charactersPairs_def pairStep_def pairOf_def
      commonEpisodes_def charactersWithEpisodes_def forEach_push_def withEpisodes_def
      chRick_def chMorty_def chSummer_def E1_def E2_def E3_def E4_def E5_def)

lemma searchRequest_Rick:
  "searchRequest resourceType ''Rick'' = BASE_URL @ ''/'' @ resourceType @ ''/?name=Rick''"
  by (simp add: searchRequest_def encodeURIComponent_def encodeUnit_def uriUnreserved_def)

lemma searchResource_allFound:
  "snd (searchResource allFound ''character'' ''Rick'') = Array [Some rickHit]"
  "snd (searchResource allFound ''location'' ''Rick'') = Array [Some citadel]"
  "snd (searchResource allFound ''episode'' ''Rick'') = Array [Some ricklantis]"
  by (simp_all add: searchResource_def searchResource_try_def allFound_def searchRequest_Rick
      onePageOf_def response_ok_def)



lemma search_allFound:
  "snd (search allFound (Some ''Rick'') (Some ''2'')) =
     Reply 200 (Items
       [\<lparr>sr_name = ''Rick Sanchez'', sr_type = TyCharacter,
          sr_url = ''https://rickandmortyapi.com/api/character/1''\<rparr>,
        \<lparr>sr_name = ''Citadel of Ricks'', sr_type = TyLocation,
          sr_url = ''https://rickandmortyapi.com/api/location/3''\<rparr>])"
  by (simp add: search_def search_respond_eq search_try_unfold searchResource_allFound
      forEach_found_def tagCharacter_def tagLocation_def tagEpisode_def parseInt_2
      Number_isFinite_def js_truthy_def array_slice0_def
      rickHit_def citadel_def ricklantis_def chRick_def)

lemma limitedResults_onePage:
  "limitedResults (Finite 0) PosInfinity (Finite 20) [chRick, chMorty, chSummer] =
     [\<lparr>character1 = \<lparr>name = ''Rick Sanchez'',
                       url = ''https://rickandmortyapi.com/api/character/1''\<rparr>,
       character2 = \<lparr>name = ''Summer Smith'',
                       url = ''https://rickandmortyapi.com/api/character/3''\<rparr>,
       episodes = 5\<rparr>,
      \<lparr>character1 = \<lparr>name = ''Rick Sanchez'',
                       url = ''https://rickandmortyapi.com/api/character/1''\<rparr>,
       character2 = \<lparr>name = ''Morty Smith'',
                       url = ''https://rickandmortyapi.com/api/character/2''\<rparr>,
       episodes = 2\<rparr>,
      \<lparr>character1 = \<lparr>name = ''Morty Smith'',
                       url = ''https://rickandmortyapi.com/api/character/2''\<rparr>,
       character2 = \<lparr>name = ''Summer Smith'',
                       url = ''https://rickandmortyapi.com/api/character/3''\<rparr>,
       episodes = 2\<rparr>]"
  by (simp add: limitedResults_def array_slice0_def filteredPairs_def sortedPairs_def
      array_sort_def compareEpisodes_def charactersPairs_def pairStep_def pairOf_def
      commonEpisodes_def charactersWithEpisodes_def forEach_push_def withEpisodes_def
      chRick_def chMorty_def chSummer_def E1_def E2_def E3_def E4_def E5_def)

subsection \<open>The loader of the character collection\<close>

text \<open>
  C1, as stated, fails: \<open>getAllCharacters\<close> requests \<open>/character/\<close> once and returns the
  results of that page; it never reads \<open>info.next\<close>. On the upstream with two pages the
  loader of the specification returns both characters, the code returns the character of
  the first page only, and \<open>/top-pairs\<close> sends no pair although the two characters of
  the collection share an episode.
\<close>

theorem C1_counterexample:
  "spec_loadAll 2 twoPages (BASE_URL @ ''/character/'') = Some [tie1, tie2]
   \<and> getAllCharacters twoPages = ([BASE_URL @ ''/character/''], [tie1])
   \<and> tie2 \<notin> set (snd (getAllCharacters twoPages))
   \<and> top_pairs twoPages None None None = ([BASE_URL @ ''/character/''], Reply 200 (Items []))
   \<and> limitedResults (Finite 0) PosInfinity (Finite 20) [tie1, tie2]
       = [pairOf (withEpisodes tie1) (withEpisodes tie2)]"
proof -
  have two: "(2::nat) = Suc (Suc 0)" by simp
  have "spec_loadAll 2 twoPages (BASE_URL @ ''/character/'') = Some [tie1, tie2]"
    unfolding two by (simp add: twoPages_def response_ok_def BASE_URL_def)
  moreover have "getAllCharacters twoPages = ([BASE_URL @ ''/character/''], [tie1])"
    by (simp add: getAllCharacters_def getAllCharacters_try_def twoPages_def response_ok_def)
  moreover have "tie2 \<noteq> tie1"
    by (simp add: tie1_def tie2_def)
  moreover have "limitedResults (Finite 0) PosInfinity (Finite 20) [tie1] = []"
    by (simp add: limitedResults_def array_slice0_def filteredPairs_def sortedPairs_def
      array_sort_def charactersPairs_def pairStep_def
      charactersWithEpisodes_def forEach_push_def)
  moreover have "limitedResults (Finite 0) PosInfinity (Finite 20) [tie1, tie2]
       = [pairOf (withEpisodes tie1) (withEpisodes tie2)]"
    by (simp add: limitedResults_def array_slice0_def filteredPairs_def sortedPairs_def
      array_sort_def compareEpisodes_def charactersPairs_def pairStep_def pairOf_def
      commonEpisodes_def charactersWithEpisodes_def forEach_push_def withEpisodes_def
      tie1_def tie2_def E1_def)
  ultimately show ?thesis
    by (simp add: top_pairs_def top_pairs_try_def)
qed

text \<open>
  C1, amended: the loader requests the first page of the character collection and returns
  the items of that page, whatever its \<open>next\<close> cursor is. So for every character
  collection whose first page has no \<open>next\<close> cursor, the returned sequence is what the
  loader of the specification returns: every character of the collection, each exactly
  once.
\<close>

theorem C1_loads_first_page:
  assumes "fetch (BASE_URL @ ''/character/'') = Response status statusText (Inr data)"
      and "response_ok status"
  shows "getAllCharacters fetch =
           ([BASE_URL @ ''/character/''], case results data of None \<Rightarrow> [] | Some rs \<Rightarrow> rs)
         \<and> (info_next (info data) = None \<longrightarrow>
               spec_loadAll (Suc fuel) fetch (BASE_URL @ ''/character/'')
                 = Some (snd (getAllCharacters fetch)))"
proof -
  have ne: "status \<noteq> 404" using assms(2) by (auto simp: response_ok_def)
  have load: "getAllCharacters fetch =
           ([BASE_URL @ ''/character/''], case results data of None \<Rightarrow> [] | Some rs \<Rightarrow> rs)"
    using assms ne by (simp add: getAllCharacters_def getAllCharacters_try_def)
  have "info_next (info data) = None \<longrightarrow>
               spec_loadAll (Suc fuel) fetch (BASE_URL @ ''/character/'')
                 = Some (snd (getAllCharacters fetch))"
    using assms by (simp add: load)
  with load show ?thesis by simp
qed

theorem C1_loads_first_page_witness:
  "onePage (BASE_URL @ ''/character/'') =
     Response 200 ''OK''
       (Inr \<lparr>info = \<lparr>info_count = 3, info_pages = 1, info_next = None, info_prev = None\<rparr>,
             results = Some [chRick, chMorty, chSummer]\<rparr>)
   \<and> response_ok 200
   \<and> getAllCharacters onePage = ([BASE_URL @ ''/character/''], [chRick, chMorty, chSummer])
   \<and> spec_loadAll (Suc 0) onePage (BASE_URL @ ''/character/'') = Some [chRick, chMorty, chSummer]"
proof -
  have h1: "onePage (BASE_URL @ ''/character/'') =
     Response 200 ''OK''
       (Inr \<lparr>info = \<lparr>info_count = 3, info_pages = 1, info_next = None, info_prev = None\<rparr>,
             results = Some [chRick, chMorty, chSummer]\<rparr>)"
    by (simp add: onePage_def)
  have h2: "response_ok 200" by (simp add: response_ok_def)
  from C1_loads_first_page [where fetch = onePage and fuel = 0, OF h1 h2]
  have "getAllCharacters onePage = ([BASE_URL @ ''/character/''], [chRick, chMorty, chSummer])"
    and "spec_loadAll (Suc 0) onePage (BASE_URL @ ''/character/'') = Some [chRick, chMorty, chSummer]"
    by simp_all
  with h1 h2 show ?thesis by simp
qed

text \<open>
  C2, as stated, fails: \<open>getAllCharacters\<close> catches every error of its request and
  returns the empty array. With an upstream that answers 500, \<open>/top-pairs\<close> answers 200
  with an empty array, not 500.
\<close>

theorem C2_counterexample:
  "top_pairs serverError None None None = ([BASE_URL @ ''/character/''], Reply 200 (Items []))
   \<and> snd (top_pairs serverError None None None) \<noteq> Reply 500 (ErrorObject ''Internal server error'')
   \<and> upstreamFailure (serverError (BASE_URL @ ''/character/''))"
  by (simp add: top_pairs_def top_pairs_try_eq getAllCharacters_eq limitedResults_Nil
      spec_hits_def upstreamFailure_def notFound_def serverError_def response_ok_def)

text \<open>
  C2, amended: when the request of the character collection fails (transport failure, a
  status outside 200 to 299 other than 404, or a body that does not decode), the loader
  returns the empty array, and \<open>/top-pairs\<close> answers 200 with an empty array for every
  query that passes validation (a query that does not is answered 400 before the request).
\<close>

theorem C2_failure_gives_empty_list:
  assumes "upstreamFailure (fetch (BASE_URL @ ''/character/''))"
  shows "getAllCharacters fetch = ([BASE_URL @ ''/character/''], [])
         \<and> top_pairs fetch None None None = ([BASE_URL @ ''/character/''], Reply 200 (Items []))
         \<and> (\<forall>minRaw maxRaw limitRaw.
               top_pairs fetch minRaw maxRaw limitRaw
                 = ([BASE_URL @ ''/character/''], Reply 200 (Items []))
               \<or> (\<exists>message. top_pairs fetch minRaw maxRaw limitRaw
                     = ([], Reply 400 (ErrorObject message))))"
proof -
  have load: "getAllCharacters fetch = ([BASE_URL @ ''/character/''], [])"
    using assms by (simp add: getAllCharacters_eq spec_hits_failure)
  have run: "top_pairs_try fetch mn mx lim = ([BASE_URL @ ''/character/''], Reply 200 (Items []))"
    for mn mx lim
    by (simp add: top_pairs_try_eq load limitedResults_Nil)
  have "top_pairs fetch None None None = ([BASE_URL @ ''/character/''], Reply 200 (Items []))"
    by (simp add: top_pairs_def run)
  moreover have "top_pairs fetch minRaw maxRaw limitRaw
                 = ([BASE_URL @ ''/character/''], Reply 200 (Items []))
               \<or> (\<exists>message. top_pairs fetch minRaw maxRaw limitRaw
                     = ([], Reply 400 (ErrorObject message)))" for minRaw maxRaw limitRaw
    unfolding top_pairs_def Let_def run by simp
  ultimately show ?thesis using load by blast
qed

theorem C2_failure_gives_empty_list_witness:
  "upstreamFailure (serverError (BASE_URL @ ''/character/''))
   \<and> getAllCharacters serverError = ([BASE_URL @ ''/character/''], [])
   \<and> top_pairs serverError None None None = ([BASE_URL @ ''/character/''], Reply 200 (Items []))"
proof -
  have h: "upstreamFailure (serverError (BASE_URL @ ''/character/''))"
    by (simp add: upstreamFailure_def serverError_def response_ok_def)
  show ?thesis using h C2_failure_gives_empty_list [of serverError, OF h] by blast
qed

subsection \<open>The pair computation\<close>

text \<open>
  C3, as the specification states it, fails: the count is the length of the filtered
  episode list of \<open>character1\<close>, so a reference that \<open>character1\<close> lists twice counts
  twice. Here the pair has count 2 and the two episode sets share one reference.
\<close>

theorem C3_counterexample:
  "charactersPairs [dupA, dupB] = [pairOf dupA dupB]
   \<and> episodes (pairOf dupA dupB) = 2
   \<and> card (set (we_episodes dupA) \<inter> set (we_episodes dupB)) = 1"
  by (simp add: charactersPairs_def pairStep_def pairOf_def commonEpisodes_def dupA_def dupB_def)

text \<open>
  C3, amended: every pair that the pair computation pushes comes from two characters of
  the input, the first with the smaller id; its count is at least 1 and is the number of
  entries of the episode list of \<open>character1\<close> that occur in the episode list of
  \<open>character2\<close>. When the episode list of \<open>character1\<close> has no duplicate, the count is the
  cardinality of the intersection of the two sets of episode references (duplicates in
  the list of \<open>character2\<close> do not matter). The pairs that the handler sends are among
  the pushed ones (\<open>set_limitedResults\<close>).
\<close>

theorem C3_shared_count:
  assumes "p \<in> set (charactersPairs cs)"
  shows "\<exists>a b. a \<in> set cs \<and> b \<in> set cs \<and> we_id a < we_id b \<and> p = pairOf a b
           \<and> 1 \<le> episodes p
           \<and> episodes p = length (filter (\<lambda>ep. ep \<in> set (we_episodes b)) (we_episodes a))
           \<and> (distinct (we_episodes a) \<longrightarrow>
                episodes p = card (set (we_episodes a) \<inter> set (we_episodes b)))"
proof -
  from assms obtain a b where ab: "(a, b) \<in> set (pairSources cs)" and p: "p = pairOf a b"
    by (auto simp: charactersPairs_sources)
  from ab have mem: "a \<in> set cs" "b \<in> set cs" "we_id a < we_id b" "commonEpisodes a b \<noteq> []"
    by (simp_all add: set_pairSources)
  have "1 \<le> episodes p"
    using mem(4) p by (cases "commonEpisodes a b") (simp_all add: episodes_pairOf)
  moreover have "episodes p = length (filter (\<lambda>ep. ep \<in> set (we_episodes b)) (we_episodes a))"
    by (simp add: p episodes_pairOf commonEpisodes_def)
  moreover have "distinct (we_episodes a) \<longrightarrow>
      episodes p = card (set (we_episodes a) \<inter> set (we_episodes b))"
    by (simp add: p episodes_pairOf length_commonEpisodes_distinct)
  ultimately show ?thesis using mem p by blast
qed

theorem C3_shared_count_witness:
  "pairOf exA exB \<in> set (charactersPairs [exA, exB, exC])
   \<and> (\<exists>a b. a \<in> set [exA, exB, exC] \<and> b \<in> set [exA, exB, exC] \<and> we_id a < we_id b
         \<and> pairOf exA exB = pairOf a b
         \<and> 1 \<le> episodes (pairOf exA exB)
         \<and> episodes (pairOf exA exB)
             = length (filter (\<lambda>ep. ep \<in> set (we_episodes b)) (we_episodes a))
         \<and> (distinct (we_episodes a) \<longrightarrow>
              episodes (pairOf exA exB) = card (set (we_episodes a) \<inter> set (we_episodes b))))"
proof -
  have h: "pairOf exA exB \<in> set (charactersPairs [exA, exB, exC])"
    by (simp add: charactersPairs_def pairStep_def commonEpisodes_def exA_def exB_def exC_def)
  show ?thesis using h C3_shared_count [OF h] by blast
qed

lemma pairOf_explicit:
  "pairOf a b =
     \<lparr>character1 = \<lparr>name = we_name a, url = we_url a\<rparr>,
      character2 = \<lparr>name = we_name b, url = we_url b\<rparr>,
      episodes = length (filter (\<lambda>ep. ep \<in> set (we_episodes b)) (we_episodes a))\<rparr>"
  by (simp add: pairOf_def commonEpisodes_def)

text \<open>
  C4: when the ids of the input are pairwise distinct, the pushed pairs are, one for one
  and in order, the objects built from a duplicate-free list of pairs \<open>(a, b)\<close> of input
  characters: \<open>character1\<close> carries the name and URL of \<open>a\<close>, \<open>character2\<close> those of \<open>b\<close>,
  and \<open>episodes\<close> the number of episodes of \<open>a\<close> that \<open>b\<close> has. The list holds exactly
  the pairs with the smaller id first and at least one shared episode reference. So each
  unordered pair of distinct characters that share an episode is pushed once, in exactly
  one orientation, the one with the smaller id as \<open>character1\<close>; no character is paired
  with itself and no pair without a shared episode is pushed.
\<close>

theorem C4_each_unordered_pair_once:
  assumes "distinct (map we_id cs)"
  shows "\<exists>src. charactersPairs cs =
                 map (\<lambda>(a, b).
                        \<lparr>character1 = \<lparr>name = we_name a, url = we_url a\<rparr>,
                         character2 = \<lparr>name = we_name b, url = we_url b\<rparr>,
                         episodes = length (filter (\<lambda>ep. ep \<in> set (we_episodes b))
                                              (we_episodes a))\<rparr>) src
           \<and> distinct src
           \<and> set src = {(a, b). a \<in> set cs \<and> b \<in> set cs \<and> we_id a < we_id b
                           \<and> set (we_episodes a) \<inter> set (we_episodes b) \<noteq> {}}
           \<and> (\<forall>a\<in>set cs. \<forall>b\<in>set cs.
                 a \<noteq> b \<and> set (we_episodes a) \<inter> set (we_episodes b) \<noteq> {} \<longrightarrow>
                   count_list src (a, b) + count_list src (b, a) = 1
                   \<and> ((a, b) \<in> set src \<longleftrightarrow> we_id a < we_id b))
           \<and> (\<forall>(a, b)\<in>set src.
                 a \<noteq> b \<and> we_id a < we_id b
                 \<and> 1 \<le> length (filter (\<lambda>ep. ep \<in> set (we_episodes b)) (we_episodes a)))"
proof -
  let ?src = "pairSources cs"
  have out: "charactersPairs cs =
                 map (\<lambda>(a, b).
                        \<lparr>character1 = \<lparr>name = we_name a, url = we_url a\<rparr>,
                         character2 = \<lparr>name = we_name b, url = we_url b\<rparr>,
                         episodes = length (filter (\<lambda>ep. ep \<in> set (we_episodes b))
                                              (we_episodes a))\<rparr>) ?src"
    by (simp add: charactersPairs_sources pairOf_explicit)
  have dcs: "distinct cs" using assms by (simp add: distinct_map)
  have inj: "inj_on we_id (set cs)" using assms by (simp add: distinct_map)
  have d: "distinct ?src" using dcs by (rule distinct_pairSources)
  have s: "set ?src = {(a, b). a \<in> set cs \<and> b \<in> set cs \<and> we_id a < we_id b
                           \<and> set (we_episodes a) \<inter> set (we_episodes b) \<noteq> {}}"
    by (simp add: set_pairSources commonEpisodes_Nil_iff)
  have once: "count_list ?src (a, b) + count_list ?src (b, a) = 1
                \<and> ((a, b) \<in> set ?src \<longleftrightarrow> we_id a < we_id b)"
    if "a \<in> set cs" "b \<in> set cs" "a \<noteq> b"
       "set (we_episodes a) \<inter> set (we_episodes b) \<noteq> {}" for a b
  proof -
    have ne: "we_id a \<noteq> we_id b" using inj that(1-3) by (auto dest: inj_onD)
    have sym: "set (we_episodes b) \<inter> set (we_episodes a) \<noteq> {}" using that(4) by auto
    show ?thesis
    proof (cases "we_id a < we_id b")
      case True
      then have "(a, b) \<in> set ?src" "(b, a) \<notin> set ?src" using that s by auto
      then show ?thesis using True d by (simp add: count_list_distinct)
    next
      case False
      then have "we_id b < we_id a" using ne by simp
      then have "(b, a) \<in> set ?src" "(a, b) \<notin> set ?src" using that sym s by auto
      then show ?thesis using False d by (simp add: count_list_distinct)
    qed
  qed
  have each: "\<forall>(a, b)\<in>set ?src.
                 a \<noteq> b \<and> we_id a < we_id b
                 \<and> 1 \<le> length (filter (\<lambda>ep. ep \<in> set (we_episodes b)) (we_episodes a))"
  proof (clarify, intro conjI)
    fix a b assume ab: "(a, b) \<in> set ?src"
    then have lt: "we_id a < we_id b" and ne: "commonEpisodes a b \<noteq> []"
      by (simp_all add: set_pairSources)
    show "a \<noteq> b" using lt by auto
    show "we_id a < we_id b" by (rule lt)
    show "1 \<le> length (filter (\<lambda>ep. ep \<in> set (we_episodes b)) (we_episodes a))"
      using ne by (cases "commonEpisodes a b") (simp_all add: commonEpisodes_def)
  qed
  show ?thesis
    using out d s once each by blast
qed

theorem C4_each_unordered_pair_once_witness:
  "distinct (map we_id [exA, exB, exC])
   \<and> charactersPairs [exA, exB, exC] =
       [\<lparr>character1 = \<lparr>name = ''A'', url = ''uA''\<rparr>,
         character2 = \<lparr>name = ''B'', url = ''uB''\<rparr>, episodes = 1\<rparr>]
   \<and> (\<exists>src. charactersPairs [exA, exB, exC] =
                 map (\<lambda>(a, b).
                        \<lparr>character1 = \<lparr>name = we_name a, url = we_url a\<rparr>,
                         character2 = \<lparr>name = we_name b, url = we_url b\<rparr>,
                         episodes = length (filter (\<lambda>ep. ep \<in> set (we_episodes b))
                                              (we_episodes a))\<rparr>) src
           \<and> distinct src
           \<and> set src = {(a, b). a \<in> set [exA, exB, exC] \<and> b \<in> set [exA, exB, exC]
                           \<and> we_id a < we_id b
                           \<and> set (we_episodes a) \<inter> set (we_episodes b) \<noteq> {}}
           \<and> (\<forall>a\<in>set [exA, exB, exC]. \<forall>b\<in>set [exA, exB, exC].
                 a \<noteq> b \<and> set (we_episodes a) \<inter> set (we_episodes b) \<noteq> {} \<longrightarrow>
                   count_list src (a, b) + count_list src (b, a) = 1
                   \<and> ((a, b) \<in> set src \<longleftrightarrow> we_id a < we_id b))
           \<and> (\<forall>(a, b)\<in>set src.
                 a \<noteq> b \<and> we_id a < we_id b
                 \<and> 1 \<le> length (filter (\<lambda>ep. ep \<in> set (we_episodes b)) (we_episodes a))))"
proof -
  have h: "distinct (map we_id [exA, exB, exC])"
    by (simp add: exA_def exB_def exC_def)
  have v: "charactersPairs [exA, exB, exC] =
       [\<lparr>character1 = \<lparr>name = ''A'', url = ''uA''\<rparr>,
         character2 = \<lparr>name = ''B'', url = ''uB''\<rparr>, episodes = 1\<rparr>]"
    by (simp add: charactersPairs_def pairStep_def pairOf_def commonEpisodes_def
        exA_def exB_def exC_def)
  show ?thesis
    by (intro conjI h v C4_each_unordered_pair_once [OF h])
qed

subsection \<open>Validation of the query parameters\<close>

lemma digit_not_space: "isDigit c \<Longrightarrow> \<not> isStrWhiteSpaceChar c"
  by (auto simp: isDigit_def isStrWhiteSpaceChar_def)

lemma digit_not_sign: "isDigit c \<Longrightarrow> c \<noteq> CHR ''+'' \<and> c \<noteq> CHR ''-''"
  by (auto simp: isDigit_def)

lemma sign_not_space: "\<not> isStrWhiteSpaceChar CHR ''+''" "\<not> isStrWhiteSpaceChar CHR ''-''"
  by (simp_all add: isStrWhiteSpaceChar_def)

lemma sign_not_digit: "\<not> isDigit CHR ''+''" "\<not> isDigit CHR ''-''"
  by (simp_all add: isDigit_def)

lemma takeWhile_digits:
  assumes "list_all isDigit ds" and "case rest of [] \<Rightarrow> True | c # _ \<Rightarrow> \<not> isDigit c"
  shows "takeWhile isDigit (ds @ rest) = ds"
proof -
  have "takeWhile isDigit rest = []"
    using assms(2) by (cases rest) simp_all
  moreover have "takeWhile isDigit (ds @ rest) = ds @ takeWhile isDigit rest"
    using assms(1) by (intro takeWhile_append2) (simp add: list_all_iff)
  ultimately show ?thesis by simp
qed

lemma parseInt_numeral:
  assumes "signedDigits ws sg ds rest"
  shows "parseInt (ws @ sg @ ds @ rest) =
           (if DOUBLE_OVERFLOW \<le> digitsValue ds
            then (if sg = ''-'' then NegInfinity else PosInfinity)
            else Finite (if sg = ''-'' then - digitsValue ds else digitsValue ds))"
proof -
  from assms have ws: "list_all isStrWhiteSpaceChar ws"
    and sg: "sg = [] \<or> sg = ''+'' \<or> sg = ''-''"
    and ds: "ds \<noteq> []" "list_all isDigit ds"
    and rest: "case rest of [] \<Rightarrow> True | c # _ \<Rightarrow> \<not> isDigit c"
    by (simp_all add: signedDigits_def)
  obtain d ds' where dcons: "ds = d # ds'" using ds(1) by (cases ds) auto
  have d: "isDigit d" using ds(2) dcons by simp
  have tw: "takeWhile isDigit (ds @ rest) = ds" by (rule takeWhile_digits [OF ds(2) rest])
  have drop: "dropWhile isStrWhiteSpaceChar (ws @ sg @ ds @ rest) = sg @ ds @ rest"
  proof -
    have "dropWhile isStrWhiteSpaceChar (ws @ sg @ ds @ rest)
            = dropWhile isStrWhiteSpaceChar (sg @ ds @ rest)"
      using ws by (intro dropWhile_append2) (simp add: list_all_iff)
    also have "\<dots> = sg @ ds @ rest"
      using sg d dcons by (auto simp: sign_not_space digit_not_space)
    finally show ?thesis .
  qed
  from sg show ?thesis
  proof (elim disjE)
    assume "sg = []"
    then show ?thesis
      using drop tw d dcons digit_not_sign [OF d]
      by (simp add: parseInt_def Let_def)
  next
    assume "sg = ''+''"
    then show ?thesis
      using drop tw ds(1) by (simp add: parseInt_def Let_def)
  next
    assume "sg = ''-''"
    then show ?thesis
      using drop tw ds(1) by (simp add: parseInt_def Let_def)
  qed
qed

lemma parseInt_not_NaN_numeral:
  assumes "parseInt s \<noteq> NaN"
  shows "\<exists>ws sg ds rest. s = ws @ sg @ ds @ rest \<and> signedDigits ws sg ds rest"
proof -
  define ws where "ws = takeWhile isStrWhiteSpaceChar s"
  define S where "S = dropWhile isStrWhiteSpaceChar s"
  define sg where "sg = (if S \<noteq> [] \<and> (hd S = CHR ''+'' \<or> hd S = CHR ''-'') then [hd S] else [])"
  define S' where "S' = (if S \<noteq> [] \<and> (hd S = CHR ''+'' \<or> hd S = CHR ''-'') then tl S else S)"
  define ds where "ds = takeWhile isDigit S'"
  define rest where "rest = dropWhile isDigit S'"
  have s: "s = ws @ S" by (simp add: ws_def S_def)
  have S: "S = sg @ S'" by (simp add: sg_def S'_def)
  have S': "S' = ds @ rest" by (simp add: ds_def rest_def)
  have "ds \<noteq> []"
    using assms unfolding parseInt_def Let_def ds_def S'_def S_def
    by (auto split: if_splits)
  moreover have "list_all isStrWhiteSpaceChar ws"
    unfolding ws_def list_all_iff by (auto dest: set_takeWhileD)
  moreover have "list_all isDigit ds"
    unfolding ds_def list_all_iff by (auto dest: set_takeWhileD)
  moreover have "sg = [] \<or> sg = ''+'' \<or> sg = ''-''"
    unfolding sg_def by auto
  moreover have "case rest of [] \<Rightarrow> True | c # _ \<Rightarrow> \<not> isDigit c"
  proof (cases rest)
    case Nil
    then show ?thesis by simp
  next
    case (Cons c cs)
    then have "dropWhile isDigit S' \<noteq> []" "hd (dropWhile isDigit S') = c"
      by (simp_all add: rest_def)
    then have "\<not> isDigit c" using hd_dropWhile [of isDigit S'] by auto
    then show ?thesis using Cons by simp
  qed
  ultimately have "signedDigits ws sg ds rest"
    by (simp add: signedDigits_def)
  moreover have "s = ws @ sg @ ds @ rest" using s S S' by simp
  ultimately show ?thesis by blast
qed

lemma digitsValue_nonneg_aux:
  "list_all isDigit ds \<Longrightarrow> 0 \<le> acc \<Longrightarrow> 0 \<le> foldl (\<lambda>acc c. 10 * acc + digitValue c) acc ds"
proof (induction ds arbitrary: acc)
  case Nil
  then show ?case by simp
next
  case (Cons c cs)
  have "0 \<le> digitValue c" using Cons.prems(1) by (simp add: isDigit_def digitValue_def)
  then have "0 \<le> 10 * acc + digitValue c" using Cons.prems(2) by simp
  then show ?case using Cons.IH Cons.prems(1) by simp
qed

lemma digitsValue_nonneg: "list_all isDigit ds \<Longrightarrow> 0 \<le> digitsValue ds"
  unfolding digitsValue_def by (rule digitsValue_nonneg_aux) simp_all

lemma accepts_nonneg_iff:
  "\<not> rejectsNegative (Some s) \<longleftrightarrow>
     (\<exists>ws sg ds rest. s = ws @ sg @ ds @ rest \<and> signedDigits ws sg ds rest
        \<and> digitsValue ds < DOUBLE_OVERFLOW \<and> (sg = ''-'' \<longrightarrow> digitsValue ds = 0))"
proof
  assume acc: "\<not> rejectsNegative (Some s)"
  then have fin: "Number_isFinite (parseInt s)" and nn: "\<not> js_less (parseInt s) (Finite 0)"
    by (simp_all add: rejectsNegative_def)
  from fin have "parseInt s \<noteq> NaN" by (auto simp: Number_isFinite_def)
  then obtain ws sg ds rest where s: "s = ws @ sg @ ds @ rest" and sh: "signedDigits ws sg ds rest"
    using parseInt_not_NaN_numeral by blast
  have v: "0 \<le> digitsValue ds" using sh by (simp add: signedDigits_def digitsValue_nonneg)
  note p = parseInt_numeral [OF sh, folded s]
  have lt: "digitsValue ds < DOUBLE_OVERFLOW"
    using fin p by (auto simp: Number_isFinite_def split: if_splits)
  moreover have "sg = ''-'' \<longrightarrow> digitsValue ds = 0"
    using nn p v lt by (auto split: if_splits)
  ultimately show "\<exists>ws sg ds rest. s = ws @ sg @ ds @ rest \<and> signedDigits ws sg ds rest
        \<and> digitsValue ds < DOUBLE_OVERFLOW \<and> (sg = ''-'' \<longrightarrow> digitsValue ds = 0)"
    using s sh by blast
next
  assume "\<exists>ws sg ds rest. s = ws @ sg @ ds @ rest \<and> signedDigits ws sg ds rest
        \<and> digitsValue ds < DOUBLE_OVERFLOW \<and> (sg = ''-'' \<longrightarrow> digitsValue ds = 0)"
  then obtain ws sg ds rest where s: "s = ws @ sg @ ds @ rest" and sh: "signedDigits ws sg ds rest"
    and lt: "digitsValue ds < DOUBLE_OVERFLOW" and z: "sg = ''-'' \<longrightarrow> digitsValue ds = 0"
    by blast
  have v: "0 \<le> digitsValue ds" using sh by (simp add: signedDigits_def digitsValue_nonneg)
  note p = parseInt_numeral [OF sh, folded s]
  show "\<not> rejectsNegative (Some s)"
    using p lt z v by (auto simp: rejectsNegative_def Number_isFinite_def)
qed

lemma accepts_pos_iff:
  "\<not> rejectsNonPositive (Some s) \<longleftrightarrow>
     (\<exists>ws sg ds rest. s = ws @ sg @ ds @ rest \<and> signedDigits ws sg ds rest
        \<and> digitsValue ds < DOUBLE_OVERFLOW \<and> sg \<noteq> ''-'' \<and> 0 < digitsValue ds)"
proof
  assume acc: "\<not> rejectsNonPositive (Some s)"
  then have fin: "Number_isFinite (parseInt s)" and nn: "\<not> js_less_eq (parseInt s) (Finite 0)"
    by (simp_all add: rejectsNonPositive_def)
  from fin have "parseInt s \<noteq> NaN" by (auto simp: Number_isFinite_def)
  then obtain ws sg ds rest where s: "s = ws @ sg @ ds @ rest" and sh: "signedDigits ws sg ds rest"
    using parseInt_not_NaN_numeral by blast
  have v: "0 \<le> digitsValue ds" using sh by (simp add: signedDigits_def digitsValue_nonneg)
  note p = parseInt_numeral [OF sh, folded s]
  have lt: "digitsValue ds < DOUBLE_OVERFLOW"
    using fin p by (auto simp: Number_isFinite_def split: if_splits)
  moreover have "sg \<noteq> ''-'' \<and> 0 < digitsValue ds"
    using nn p v lt by (auto split: if_splits)
  ultimately show "\<exists>ws sg ds rest. s = ws @ sg @ ds @ rest \<and> signedDigits ws sg ds rest
        \<and> digitsValue ds < DOUBLE_OVERFLOW \<and> sg \<noteq> ''-'' \<and> 0 < digitsValue ds"
    using s sh by blast
next
  assume "\<exists>ws sg ds rest. s = ws @ sg @ ds @ rest \<and> signedDigits ws sg ds rest
        \<and> digitsValue ds < DOUBLE_OVERFLOW \<and> sg \<noteq> ''-'' \<and> 0 < digitsValue ds"
  then obtain ws sg ds rest where s: "s = ws @ sg @ ds @ rest" and sh: "signedDigits ws sg ds rest"
    and lt: "digitsValue ds < DOUBLE_OVERFLOW" and z: "sg \<noteq> ''-''" "0 < digitsValue ds"
    by blast
  note p = parseInt_numeral [OF sh, folded s]
  show "\<not> rejectsNonPositive (Some s)"
    using p lt z by (auto simp: rejectsNonPositive_def Number_isFinite_def)
qed

text \<open>
  C5, as stated, fails: \<open>parseInt\<close> reads the longest numeric prefix and ignores the rest
  of the string. \<open>min=5abc\<close> is accepted as 5: the handler requests the characters and
  answers 200 with the pairs of count at least 5.
\<close>

theorem C5_counterexample:
  "top_pairs onePage (Some ''5abc'') None None =
     ([BASE_URL @ ''/character/''],
      Reply 200 (Items [pairOf (withEpisodes chRick) (withEpisodes chSummer)]))"
  by (simp add: top_pairs_def top_pairs_try_def getAllCharacters_onePage parseInt_examples
      Number_isFinite_def
      limitedResults_def array_slice0_def filteredPairs_def sortedPairs_def
      array_sort_def compareEpisodes_def charactersPairs_def pairStep_def pairOf_def
      commonEpisodes_def charactersWithEpisodes_def forEach_push_def withEpisodes_def
      chRick_def chMorty_def chSummer_def E1_def E2_def E3_def E4_def E5_def)

text \<open>
  C5, amended: a parameter that is present is rejected exactly when the handler's condition
  on its \<open>parseInt\<close> holds, in the order \<open>min\<close>, \<open>max\<close>, \<open>limit\<close>; the answer is then 400
  with the message of that parameter, and no request was sent upstream. Otherwise the
  handler sends its one request and answers 200. A value is accepted exactly when it is
  white space, an optional sign and a non-empty run of decimal digits, followed by
  anything that does not start with a digit, where the digits denote a number below the
  overflow of a double that is not negative (for \<open>min\<close> and \<open>max\<close>: the digits denote 0
  when the sign is minus) or is positive (for \<open>limit\<close>).
\<close>

theorem C5_validation_by_parseInt:
  "(rejectsNegative minRaw \<longrightarrow>
      top_pairs fetch minRaw maxRaw limitRaw =
        ([], Reply 400 (ErrorObject ''Query parameter 'min' must be a non-negative integer'')))
   \<and> (\<not> rejectsNegative minRaw \<and> rejectsNegative maxRaw \<longrightarrow>
      top_pairs fetch minRaw maxRaw limitRaw =
        ([], Reply 400 (ErrorObject ''Query parameter 'max' must be a non-negative integer'')))
   \<and> (\<not> rejectsNegative minRaw \<and> \<not> rejectsNegative maxRaw \<and> rejectsNonPositive limitRaw \<longrightarrow>
      top_pairs fetch minRaw maxRaw limitRaw =
        ([], Reply 400 (ErrorObject ''Query parameter 'limit' must be a positive integer'')))
   \<and> (\<not> rejectsNegative minRaw \<and> \<not> rejectsNegative maxRaw \<and> \<not> rejectsNonPositive limitRaw \<longrightarrow>
      fst (top_pairs fetch minRaw maxRaw limitRaw) = [BASE_URL @ ''/character/'']
      \<and> (\<exists>out. snd (top_pairs fetch minRaw maxRaw limitRaw) = Reply 200 (Items out)))
   \<and> (\<forall>s. \<not> rejectsNegative (Some s) \<longleftrightarrow>
         (\<exists>ws sg ds rest. s = ws @ sg @ ds @ rest \<and> signedDigits ws sg ds rest
            \<and> digitsValue ds < DOUBLE_OVERFLOW \<and> (sg = ''-'' \<longrightarrow> digitsValue ds = 0)))
   \<and> (\<forall>s. \<not> rejectsNonPositive (Some s) \<longleftrightarrow>
         (\<exists>ws sg ds rest. s = ws @ sg @ ds @ rest \<and> signedDigits ws sg ds rest
            \<and> digitsValue ds < DOUBLE_OVERFLOW \<and> sg \<noteq> ''-'' \<and> 0 < digitsValue ds))"
proof (intro conjI impI allI)
  assume "rejectsNegative minRaw"
  then show "top_pairs fetch minRaw maxRaw limitRaw =
        ([], Reply 400 (ErrorObject ''Query parameter 'min' must be a non-negative integer''))"
    by (cases minRaw) (auto simp: rejectsNegative_def top_pairs_def Let_def)
next
  assume "\<not> rejectsNegative minRaw \<and> rejectsNegative maxRaw"
  then show "top_pairs fetch minRaw maxRaw limitRaw =
        ([], Reply 400 (ErrorObject ''Query parameter 'max' must be a non-negative integer''))"
    by (cases minRaw; cases maxRaw) (auto simp: rejectsNegative_def top_pairs_def Let_def)
next
  assume "\<not> rejectsNegative minRaw \<and> \<not> rejectsNegative maxRaw \<and> rejectsNonPositive limitRaw"
  then show "top_pairs fetch minRaw maxRaw limitRaw =
        ([], Reply 400 (ErrorObject ''Query parameter 'limit' must be a positive integer''))"
    by (cases minRaw; cases maxRaw; cases limitRaw)
       (auto simp: rejectsNegative_def rejectsNonPositive_def top_pairs_def Let_def)
next
  assume a: "\<not> rejectsNegative minRaw \<and> \<not> rejectsNegative maxRaw \<and> \<not> rejectsNonPositive limitRaw"
  then have "\<exists>mn mx lim. top_pairs fetch minRaw maxRaw limitRaw = top_pairs_try fetch mn mx lim"
    by (cases minRaw; cases maxRaw; cases limitRaw)
       (auto simp: rejectsNegative_def rejectsNonPositive_def top_pairs_def Let_def)
  then obtain mn mx lim
    where run: "top_pairs fetch minRaw maxRaw limitRaw = top_pairs_try fetch mn mx lim" by blast
  show "fst (top_pairs fetch minRaw maxRaw limitRaw) = [BASE_URL @ ''/character/'']"
    by (simp add: run top_pairs_try_eq getAllCharacters_requests)
  show "\<exists>out. snd (top_pairs fetch minRaw maxRaw limitRaw) = Reply 200 (Items out)"
    by (simp add: run top_pairs_try_eq)
next
  fix s
  show "\<not> rejectsNegative (Some s) \<longleftrightarrow>
         (\<exists>ws sg ds rest. s = ws @ sg @ ds @ rest \<and> signedDigits ws sg ds rest
            \<and> digitsValue ds < DOUBLE_OVERFLOW \<and> (sg = ''-'' \<longrightarrow> digitsValue ds = 0))"
    by (rule accepts_nonneg_iff)
next
  fix s
  show "\<not> rejectsNonPositive (Some s) \<longleftrightarrow>
         (\<exists>ws sg ds rest. s = ws @ sg @ ds @ rest \<and> signedDigits ws sg ds rest
            \<and> digitsValue ds < DOUBLE_OVERFLOW \<and> sg \<noteq> ''-'' \<and> 0 < digitsValue ds)"
    by (rule accepts_pos_iff)
qed

theorem C5_validation_by_parseInt_witness:
  "rejectsNegative (Some ''abc'')
   \<and> top_pairs onePage (Some ''abc'') None None =
        ([], Reply 400 (ErrorObject ''Query parameter 'min' must be a non-negative integer''))
   \<and> top_pairs onePage None (Some ''-1'') None =
        ([], Reply 400 (ErrorObject ''Query parameter 'max' must be a non-negative integer''))
   \<and> top_pairs onePage None None (Some ''0'') =
        ([], Reply 400 (ErrorObject ''Query parameter 'limit' must be a positive integer''))
   \<and> fst (top_pairs onePage (Some ''0'') None None) = [BASE_URL @ ''/character/'']"
proof -
  have r1: "rejectsNegative (Some ''abc'')"
    by (simp add: rejectsNegative_def parseInt_examples Number_isFinite_def)
  have r2: "\<not> rejectsNegative None \<and> rejectsNegative (Some ''-1'')"
    by (simp add: rejectsNegative_def parseInt_examples Number_isFinite_def)
  have r3: "\<not> rejectsNegative None \<and> \<not> rejectsNegative None \<and> rejectsNonPositive (Some ''0'')"
    by (simp add: rejectsNegative_def rejectsNonPositive_def parseInt_examples Number_isFinite_def)
  have r4: "\<not> rejectsNegative (Some ''0'') \<and> \<not> rejectsNegative None \<and> \<not> rejectsNonPositive None"
    by (simp add: rejectsNegative_def rejectsNonPositive_def parseInt_examples Number_isFinite_def)
  have "top_pairs onePage (Some ''abc'') None None =
        ([], Reply 400 (ErrorObject ''Query parameter 'min' must be a non-negative integer''))"
    using C5_validation_by_parseInt [of "Some ''abc''" onePage None None] r1 by blast
  moreover have "top_pairs onePage None (Some ''-1'') None =
        ([], Reply 400 (ErrorObject ''Query parameter 'max' must be a non-negative integer''))"
    using C5_validation_by_parseInt [of None onePage "Some ''-1''" None] r2 by blast
  moreover have "top_pairs onePage None None (Some ''0'') =
        ([], Reply 400 (ErrorObject ''Query parameter 'limit' must be a positive integer''))"
    using C5_validation_by_parseInt [of None onePage None "Some ''0''"] r3 by blast
  moreover have "fst (top_pairs onePage (Some ''0'') None None) = [BASE_URL @ ''/character/'']"
    using C5_validation_by_parseInt [of "Some ''0''" onePage None None] r4 by blast
  ultimately show ?thesis using r1 by simp
qed

subsection \<open>Ranking, filtering and limiting\<close>

text \<open>
  C6: whatever the upstream answers and whatever the query is, an array that \<open>/top-pairs\<close>
  sends is in non-increasing order of \<open>episodes\<close>: each pair has at most the count of
  the pair before it.
\<close>

theorem C6_ranking_monotone:
  assumes "snd (top_pairs fetch minRaw maxRaw limitRaw) = Reply status (Items out)"
  shows "sorted_wrt (\<lambda>p q. episodes q \<le> episodes p) out
         \<and> (\<forall>i. Suc i < length out \<longrightarrow> episodes (out ! Suc i) \<le> episodes (out ! i))"
proof -
  from top_pairs_Items [OF assms] obtain mn mx lim
    where out: "out = limitedResults mn mx lim (snd (getAllCharacters fetch))" by blast
  have s: "sorted_wrt (\<lambda>p q. episodes q \<le> episodes p) out"
    unfolding out by (rule sorted_limitedResults)
  then have "\<forall>i. Suc i < length out \<longrightarrow> episodes (out ! Suc i) \<le> episodes (out ! i)"
    by (auto simp: sorted_wrt_iff_nth_less)
  with s show ?thesis by simp
qed

theorem C6_ranking_monotone_witness:
  "snd (top_pairs onePage None None None) =
     Reply 200 (Items
        [pairOf (withEpisodes chRick) (withEpisodes chSummer),
         pairOf (withEpisodes chRick) (withEpisodes chMorty),
         pairOf (withEpisodes chMorty) (withEpisodes chSummer)])
   \<and> sorted_wrt (\<lambda>p q. episodes q \<le> episodes p)
        [pairOf (withEpisodes chRick) (withEpisodes chSummer),
         pairOf (withEpisodes chRick) (withEpisodes chMorty),
         pairOf (withEpisodes chMorty) (withEpisodes chSummer)]
   \<and> episodes (pairOf (withEpisodes chRick) (withEpisodes chMorty))
       \<le> episodes (pairOf (withEpisodes chRick) (withEpisodes chSummer))
   \<and> episodes (pairOf (withEpisodes chMorty) (withEpisodes chSummer))
       \<le> episodes (pairOf (withEpisodes chRick) (withEpisodes chMorty))"
proof -
  let ?out = "[pairOf (withEpisodes chRick) (withEpisodes chSummer),
               pairOf (withEpisodes chRick) (withEpisodes chMorty),
               pairOf (withEpisodes chMorty) (withEpisodes chSummer)]"
  have h: "snd (top_pairs onePage None None None) = Reply 200 (Items ?out)"
    by (simp add: top_pairs_onePage)
  have s: "sorted_wrt (\<lambda>p q. episodes q \<le> episodes p) ?out"
    and n: "\<forall>i. Suc i < length ?out \<longrightarrow> episodes (?out ! Suc i) \<le> episodes (?out ! i)"
    using C6_ranking_monotone [OF h] by blast+
  have "episodes (?out ! Suc 0) \<le> episodes (?out ! 0)"
    using n by (rule allE [where x = 0]) simp
  moreover have "episodes (?out ! Suc 1) \<le> episodes (?out ! 1)"
    using n by (rule allE [where x = 1]) simp
  ultimately show ?thesis using h s by simp
qed

text \<open>
  C7: for accepted parameters (each absent, or parsed to a number in range), the answer
  is status 200 with the ranked pairs whose count lies between \<open>min\<close> and \<open>max\<close>, cut to
  the first \<open>limit\<close> of them; an absent \<open>min\<close> is 0, an absent \<open>max\<close> is no upper bound and
  an absent \<open>limit\<close> is 20. With \<open>min = 5\<close> and \<open>max = 5\<close> every pair sent has count 5.
\<close>

theorem C7_filter_and_limit:
  assumes "case minRaw of None \<Rightarrow> mn = 0 | Some raw \<Rightarrow> parseInt raw = Finite (int mn)"
      and "case maxRaw of None \<Rightarrow> mx = None
           | Some raw \<Rightarrow> (\<exists>m. mx = Some m \<and> parseInt raw = Finite (int m))"
      and "case limitRaw of None \<Rightarrow> lim = 20
           | Some raw \<Rightarrow> parseInt raw = Finite (int lim) \<and> 0 < lim"
  shows "\<exists>out. snd (top_pairs fetch minRaw maxRaw limitRaw) = Reply 200 (Items out)
           \<and> out = spec_filter_limit mn mx lim
                     (sortedPairs (charactersPairs
                        (charactersWithEpisodes (snd (getAllCharacters fetch)))))
           \<and> length out \<le> lim
           \<and> (\<forall>p\<in>set out. mn \<le> episodes p \<and> (\<forall>m. mx = Some m \<longrightarrow> episodes p \<le> m))
           \<and> (mn = 5 \<and> mx = Some 5 \<longrightarrow> (\<forall>p\<in>set out. episodes p = 5))"
proof -
  let ?ranked = "sortedPairs (charactersPairs
                   (charactersWithEpisodes (snd (getAllCharacters fetch))))"
  define minEpisodes where "minEpisodes = Finite (int mn)"
  define maxEpisodes where "maxEpisodes = (case mx of None \<Rightarrow> PosInfinity | Some m \<Rightarrow> Finite (int m))"
  define limit where "limit = Finite (int lim)"
  have lim_pos: "0 < lim" using assms(3) by (cases limitRaw) simp_all
  have run: "top_pairs fetch minRaw maxRaw limitRaw = top_pairs_try fetch minEpisodes maxEpisodes limit"
    using assms lim_pos unfolding top_pairs_def minEpisodes_def maxEpisodes_def limit_def
    by (cases minRaw; cases maxRaw; cases limitRaw)
       (auto simp: Let_def Number_isFinite_def)
  have filt: "filteredPairs minEpisodes maxEpisodes ?ranked =
                filter (\<lambda>p. mn \<le> episodes p
                   \<and> (case mx of None \<Rightarrow> True | Some m \<Rightarrow> episodes p \<le> m)) ?ranked"
    unfolding filteredPairs_def minEpisodes_def maxEpisodes_def
    by (cases mx) simp_all
  have out: "limitedResults minEpisodes maxEpisodes limit (snd (getAllCharacters fetch))
               = spec_filter_limit mn mx lim ?ranked"
    unfolding limitedResults_def filt spec_filter_limit_def limit_def
    by (simp add: array_slice0_Finite)
  have reply: "snd (top_pairs fetch minRaw maxRaw limitRaw)
                 = Reply 200 (Items (spec_filter_limit mn mx lim ?ranked))"
    by (simp add: run top_pairs_try_eq out)
  have range: "mn \<le> episodes p \<and> (\<forall>m. mx = Some m \<longrightarrow> episodes p \<le> m)"
    if "p \<in> set (spec_filter_limit mn mx lim ?ranked)" for p
    using that unfolding spec_filter_limit_def by (auto dest!: in_set_takeD)
  have "length (spec_filter_limit mn mx lim ?ranked) \<le> lim"
    by (simp add: spec_filter_limit_def)
  moreover have "mn = 5 \<and> mx = Some 5 \<longrightarrow>
      (\<forall>p\<in>set (spec_filter_limit mn mx lim ?ranked). episodes p = 5)"
    using range by fastforce
  ultimately show ?thesis using reply range by blast
qed

theorem C7_filter_and_limit_witness:
  "(case Some ''5'' of None \<Rightarrow> (5::nat) = 0 | Some raw \<Rightarrow> parseInt raw = Finite (int 5))
   \<and> (case Some ''5'' of None \<Rightarrow> Some (5::nat) = None
       | Some raw \<Rightarrow> (\<exists>m. Some (5::nat) = Some m \<and> parseInt raw = Finite (int m)))
   \<and> (case None of None \<Rightarrow> (20::nat) = 20
       | Some raw \<Rightarrow> parseInt raw = Finite (int 20) \<and> 0 < (20::nat))
   \<and> (\<exists>out. snd (top_pairs onePage (Some ''5'') (Some ''5'') None) = Reply 200 (Items out)
           \<and> out = spec_filter_limit 5 (Some 5) 20
                     (sortedPairs (charactersPairs
                        (charactersWithEpisodes (snd (getAllCharacters onePage)))))
           \<and> length out \<le> 20
           \<and> (\<forall>p\<in>set out. 5 \<le> episodes p \<and> (\<forall>m. Some 5 = Some m \<longrightarrow> episodes p \<le> m))
           \<and> ((5::nat) = 5 \<and> Some (5::nat) = Some 5 \<longrightarrow> (\<forall>p\<in>set out. episodes p = 5)))"
proof -
  have h1: "case Some ''5'' of None \<Rightarrow> (5::nat) = 0 | Some raw \<Rightarrow> parseInt raw = Finite (int 5)"
    by (simp add: parseInt_5)
  have h2: "case Some ''5'' of None \<Rightarrow> Some (5::nat) = None
       | Some raw \<Rightarrow> (\<exists>m. Some (5::nat) = Some m \<and> parseInt raw = Finite (int m))"
    by (simp add: parseInt_5)
  have h3: "case None of None \<Rightarrow> (20::nat) = 20
       | Some raw \<Rightarrow> parseInt raw = Finite (int 20) \<and> 0 < (20::nat)"
    by simp
  show ?thesis
    by (intro conjI h1 h2 h3 C7_filter_and_limit [OF h1 h2 h3])
qed

subsection \<open>The search\<close>




text \<open>
  C9: for a valid request, whenever the handler sends an array, the three searches
  returned arrays of objects and the array sent is the hits of the character search, then
  those of the location search, then those of the episode search, each as its name, its
  URL and the type of its collection, cut to the first \<open>limit\<close> items when a limit is
  given; the status is 200.
\<close>

theorem C9_merge_order_and_limit:
  assumes "searchTerm \<noteq> []"
      and "case limitRaw of None \<Rightarrow> lim = None
           | Some raw \<Rightarrow> (\<exists>n. lim = Some n \<and> parseInt raw = Finite (int n) \<and> 0 < n)"
      and "snd (search fetch (Some searchTerm) limitRaw) = Reply status (Items out)"
  shows "\<exists>characterHits locationHits episodeHits.
           snd (searchResource fetch ''character'' searchTerm) = Array (map Some characterHits)
           \<and> snd (searchResource fetch ''location'' searchTerm) = Array (map Some locationHits)
           \<and> snd (searchResource fetch ''episode'' searchTerm) = Array (map Some episodeHits)
           \<and> out = (let merged =
                          map (\<lambda>c. \<lparr>sr_name = resource_name c, sr_type = TyCharacter,
                                     sr_url = resource_url c\<rparr>) characterHits
                          @ map (\<lambda>l. \<lparr>sr_name = resource_name l, sr_type = TyLocation,
                                       sr_url = resource_url l\<rparr>) locationHits
                          @ map (\<lambda>e. \<lparr>sr_name = resource_name e, sr_type = TyEpisode,
                                       sr_url = resource_url e\<rparr>) episodeHits
                     in case lim of None \<Rightarrow> merged | Some n \<Rightarrow> take n merged)
           \<and> status = 200
           \<and> (\<forall>n. lim = Some n \<longrightarrow> length out \<le> n)"
proof -
  let ?c = "snd (searchResource fetch ''character'' searchTerm)"
  let ?l = "snd (searchResource fetch ''location'' searchTerm)"
  let ?e = "snd (searchResource fetch ''episode'' searchTerm)"
  obtain limit where run: "search fetch (Some searchTerm) limitRaw
                             = search_respond fetch searchTerm limit"
    and cut: "\<And>merged :: SearchResult list.
                 (case limit of
                    None \<Rightarrow> merged
                  | Some l \<Rightarrow> if js_truthy l then array_slice0 merged l else merged)
                 = (case lim of None \<Rightarrow> merged | Some n \<Rightarrow> take n merged)"
    using search_valid [OF assms(1,2), of fetch] by blast
  have no_throw: "\<not> (\<exists>error. snd (search_try fetch searchTerm limit) = Inl error)"
    using assms(3) by (auto simp: run search_respond_eq)
  have good: "\<exists>xs. found = Array (map Some xs)"
    if "found \<in> {?c, ?l, ?e}" for found
  proof (rule ccontr)
    assume "\<not> (\<exists>xs. found = Array (map Some xs))"
    then have "found = NotArray \<or> (\<exists>items. found = Array items \<and> None \<in> set items)"
      using forEach_found_cases [of found] that
        searchResource_not_Falsy [of fetch "''character''" searchTerm]
        searchResource_not_Falsy [of fetch "''location''" searchTerm]
        searchResource_not_Falsy [of fetch "''episode''" searchTerm]
      by (elim disjE) auto
    then have "\<exists>resourceType \<in> {''character'', ''location'', ''episode''}.
                snd (searchResource fetch resourceType searchTerm) = NotArray
                \<or> (\<exists>items. snd (searchResource fetch resourceType searchTerm) = Array items
                            \<and> None \<in> set items)"
      using that by auto
    then show False using search_try_throws no_throw by blast
  qed
  obtain characterHits locationHits episodeHits
    where hits: "?c = Array (map Some characterHits)" "?l = Array (map Some locationHits)"
      "?e = Array (map Some episodeHits)"
    using good [of ?c] good [of ?l] good [of ?e] by auto
  let ?merged = "map (\<lambda>c. \<lparr>sr_name = resource_name c, sr_type = TyCharacter,
                            sr_url = resource_url c\<rparr>) characterHits
                 @ map (\<lambda>l. \<lparr>sr_name = resource_name l, sr_type = TyLocation,
                              sr_url = resource_url l\<rparr>) locationHits
                 @ map (\<lambda>e. \<lparr>sr_name = resource_name e, sr_type = TyEpisode,
                              sr_url = resource_url e\<rparr>) episodeHits"
  have tags: "map tagCharacter characterHits @ map tagLocation locationHits
                @ map tagEpisode episodeHits = ?merged"
    by (simp add: tagCharacter_def tagLocation_def tagEpisode_def)
  have "snd (search fetch (Some searchTerm) limitRaw) =
          Reply 200 (Items (case lim of None \<Rightarrow> ?merged | Some n \<Rightarrow> take n ?merged))"
    using search_try_Arrays [OF hits, of limit] tags
    by (simp add: run search_respond_eq Let_def cut)
  with assms(3) have out: "status = 200"
    "out = (case lim of None \<Rightarrow> ?merged | Some n \<Rightarrow> take n ?merged)"
    by simp_all
  have "\<forall>n. lim = Some n \<longrightarrow> length out \<le> n"
    unfolding out(2) by (simp del: take_append)
  with hits out show ?thesis unfolding Let_def by blast
qed

theorem C9_merge_order_and_limit_witness:
  "''Rick'' \<noteq> []
   \<and> parseInt ''2'' = Finite (int 2)
   \<and> snd (search allFound (Some ''Rick'') (Some ''2'')) =
       Reply 200 (Items
         [\<lparr>sr_name = ''Rick Sanchez'', sr_type = TyCharacter,
            sr_url = ''https://rickandmortyapi.com/api/character/1''\<rparr>,
          \<lparr>sr_name = ''Citadel of Ricks'', sr_type = TyLocation,
            sr_url = ''https://rickandmortyapi.com/api/location/3''\<rparr>])
   \<and> (\<exists>characterHits locationHits episodeHits.
         snd (searchResource allFound ''character'' ''Rick'') = Array (map Some characterHits)
         \<and> snd (searchResource allFound ''location'' ''Rick'') = Array (map Some locationHits)
         \<and> snd (searchResource allFound ''episode'' ''Rick'') = Array (map Some episodeHits)
         \<and> [\<lparr>sr_name = ''Rick Sanchez'', sr_type = TyCharacter,
               sr_url = ''https://rickandmortyapi.com/api/character/1''\<rparr>,
             \<lparr>sr_name = ''Citadel of Ricks'', sr_type = TyLocation,
               sr_url = ''https://rickandmortyapi.com/api/location/3''\<rparr>]
             = take 2
                 (map (\<lambda>c. \<lparr>sr_name = resource_name c, sr_type = TyCharacter,
                             sr_url = resource_url c\<rparr>) characterHits
                  @ map (\<lambda>l. \<lparr>sr_name = resource_name l, sr_type = TyLocation,
                               sr_url = resource_url l\<rparr>) locationHits
                  @ map (\<lambda>e. \<lparr>sr_name = resource_name e, sr_type = TyEpisode,
                               sr_url = resource_url e\<rparr>) episodeHits))"
proof -
  have h1: "''Rick'' \<noteq> []" by simp
  have p: "parseInt ''2'' = Finite (int 2)" by (simp add: parseInt_2)
  have h2: "case Some ''2'' of None \<Rightarrow> Some (2::nat) = None
           | Some raw \<Rightarrow> (\<exists>n. Some (2::nat) = Some n \<and> parseInt raw = Finite (int n) \<and> 0 < n)"
    by (simp add: parseInt_2)
  note h3 = search_allFound
  from C9_merge_order_and_limit
    [where searchTerm = "''Rick''" and limitRaw = "Some ''2''" and lim = "Some 2"
       and fetch = allFound, OF h1 h2 h3]
  have "\<exists>characterHits locationHits episodeHits.
         snd (searchResource allFound ''character'' ''Rick'') = Array (map Some characterHits)
         \<and> snd (searchResource allFound ''location'' ''Rick'') = Array (map Some locationHits)
         \<and> snd (searchResource allFound ''episode'' ''Rick'') = Array (map Some episodeHits)
         \<and> [\<lparr>sr_name = ''Rick Sanchez'', sr_type = TyCharacter,
               sr_url = ''https://rickandmortyapi.com/api/character/1''\<rparr>,
             \<lparr>sr_name = ''Citadel of Ricks'', sr_type = TyLocation,
               sr_url = ''https://rickandmortyapi.com/api/location/3''\<rparr>]
             = take 2
                 (map (\<lambda>c. \<lparr>sr_name = resource_name c, sr_type = TyCharacter,
                             sr_url = resource_url c\<rparr>) characterHits
                  @ map (\<lambda>l. \<lparr>sr_name = resource_name l, sr_type = TyLocation,
                               sr_url = resource_url l\<rparr>) locationHits
                  @ map (\<lambda>e. \<lparr>sr_name = resource_name e, sr_type = TyEpisode,
                               sr_url = resource_url e\<rparr>) episodeHits)"
    unfolding Let_def by (elim exE conjE) (intro exI conjI, assumption+, simp)
  with h1 p h3 show ?thesis by blast
qed

subsection \<open>Order among equal counts\<close>

lemma sorted_wrt_insort_key_refine:
  assumes "sorted_wrt (\<lambda>x y. f x < f y \<or> (f x = f y \<and> R x y)) ys"
      and "\<forall>y\<in>set ys. R x y"
  shows "sorted_wrt (\<lambda>x y. f x < f y \<or> (f x = f y \<and> R x y)) (insort_key f x ys)"
  using assms
proof (induction ys)
  case Nil
  then show ?case by simp
next
  case (Cons y ys)
  show ?case
  proof (cases "f x \<le> f y")
    case True
    have "f x < f z \<or> (f x = f z \<and> R x z)" if "z \<in> set (y # ys)" for z
    proof -
      have "f y \<le> f z" using Cons.prems(1) that by auto
      moreover have "R x z" using Cons.prems(2) that by auto
      ultimately show ?thesis using True by auto
    qed
    then show ?thesis using True Cons.prems(1) by simp
  next
    case False
    have "sorted_wrt (\<lambda>x y. f x < f y \<or> (f x = f y \<and> R x y)) (insort_key f x ys)"
      using Cons by simp
    moreover have "f y < f z \<or> (f y = f z \<and> R y z)" if "z \<in> set (insort_key f x ys)" for z
      using that False Cons.prems(1) by (auto simp: set_insort_key)
    ultimately show ?thesis using False by simp
  qed
qed

lemma sorted_wrt_sort_key_refine:
  fixes f :: "'a \<Rightarrow> 'k::linorder"
  assumes "sorted_wrt R xs"
  shows "sorted_wrt (\<lambda>x y. f x < f y \<or> (f x = f y \<and> R x y)) (sort_key f xs)"
  using assms
proof (induction xs)
  case Nil
  then show ?case by simp
next
  case (Cons x xs)
  have "sorted_wrt (\<lambda>x y. f x < f y \<or> (f x = f y \<and> R x y)) (sort_key f xs)"
    using Cons by simp
  moreover have "\<forall>y\<in>set (sort_key f xs). R x y"
    using Cons.prems by simp
  ultimately show ?case
    by (simp add: sorted_wrt_insort_key_refine)
qed

lemma insort_key_map:
  "insort_key f (g x) (map g ys) = map g (insort_key (\<lambda>y. f (g y)) x ys)"
  by (induction ys) simp_all

lemma sort_key_map: "sort_key f (map g xs) = map g (sort_key (\<lambda>y. f (g y)) xs)"
  by (induction xs) (simp_all add: insort_key_map)

lemma sorted_wrt_concat_Pair:
  assumes "sorted_wrt (\<lambda>a c. we_id a < we_id c) as"
      and "\<And>a. a \<in> set as \<Longrightarrow> sorted_wrt (\<lambda>b d. we_id b < we_id d) (g a)"
  shows "sorted_wrt (\<lambda>(a, b) (c, d). we_id a < we_id c \<or> (we_id a = we_id c \<and> we_id b < we_id d))
           (concat (map (\<lambda>a. map (Pair a) (g a)) as))"
  using assms
proof (induction as)
  case Nil
  then show ?case by simp
next
  case (Cons a as)
  have "sorted_wrt (\<lambda>(a, b) (c, d). we_id a < we_id c \<or> (we_id a = we_id c \<and> we_id b < we_id d))
          (map (Pair a) (g a))"
    using Cons.prems(2) [of a] by (simp add: sorted_wrt_map)
  moreover have "sorted_wrt (\<lambda>(a, b) (c, d). we_id a < we_id c \<or> (we_id a = we_id c \<and> we_id b < we_id d))
          (concat (map (\<lambda>a. map (Pair a) (g a)) as))"
    using Cons by simp
  moreover have "we_id a < we_id c" if "c \<in> set as" for c
    using Cons.prems(1) that by simp
  ultimately show ?case
    by (auto simp: sorted_wrt_append)
qed

lemma sorted_wrt_pairSources:
  assumes "sorted_wrt (\<lambda>a c. we_id a < we_id c) cs"
  shows "sorted_wrt (\<lambda>(a, b) (c, d). we_id a < we_id c \<or> (we_id a = we_id c \<and> we_id b < we_id d))
           (pairSources cs)"
  unfolding pairSources_def
  by (rule sorted_wrt_concat_Pair) (simp_all add: assms sorted_wrt_filter)

lemma limitedResults_sources:
  "\<exists>k P. limitedResults mn mx lim allCharacters =
     map (\<lambda>(a, b). pairOf a b)
       (take k (filter P
          (sort_key (\<lambda>(a, b). - int (episodes (pairOf a b)))
             (pairSources (charactersWithEpisodes allCharacters)))))"
proof -
  let ?g = "\<lambda>(a, b). pairOf a b"
  let ?ps = "pairSources (charactersWithEpisodes allCharacters)"
  let ?P = "\<lambda>pair. js_less_eq mn (Finite (int (episodes pair)))
                  \<and> js_less_eq (Finite (int (episodes pair))) mx"
  let ?sorted = "sort_key (\<lambda>y. - int (episodes (?g y))) ?ps"
  have 1: "sortedPairs (charactersPairs (charactersWithEpisodes allCharacters)) = map ?g ?sorted"
    by (simp add: charactersPairs_sources sortedPairs_sort_key sort_key_map)
  have 2: "filteredPairs mn mx (map ?g ?sorted) = map ?g (filter (?P \<circ> ?g) ?sorted)"
    by (simp add: filteredPairs_def filter_map)
  obtain k where 3: "array_slice0 (map ?g (filter (?P \<circ> ?g) ?sorted)) lim
                       = take k (map ?g (filter (?P \<circ> ?g) ?sorted))"
    using array_slice0_take by blast
  have key: "(\<lambda>y. - int (episodes (?g y))) = (\<lambda>(a, b). - int (episodes (pairOf a b)))"
    by (simp add: fun_eq_iff split: prod.splits)
  have "limitedResults mn mx lim allCharacters = map ?g (take k (filter (?P \<circ> ?g) ?sorted))"
    unfolding limitedResults_def 1 2 3 by (simp add: take_map)
  then show ?thesis unfolding key by blast
qed

lemma filter_take_prefix: "\<exists>m. filter Q (take n xs) = take m (filter Q xs)"
proof (induction xs arbitrary: n)
  case Nil
  then show ?case by simp
next
  case (Cons x xs)
  show ?case
  proof (cases n)
    case 0
    then show ?thesis by (auto intro: exI [of _ 0])
  next
    case (Suc n')
    obtain m where m: "filter Q (take n' xs) = take m (filter Q xs)"
      using Cons.IH by blast
    show ?thesis
    proof (cases "Q x")
      case True
      then have "filter Q (take n (x # xs)) = take (Suc m) (filter Q (x # xs))"
        using Suc m by simp
      then show ?thesis by blast
    next
      case False
      then have "filter Q (take n (x # xs)) = take m (filter Q (x # xs))"
        using Suc m by simp
      then show ?thesis by blast
    qed
  qed
qed

lemma filter_take_twice: "\<exists>m. take n (take k xs) = take m xs"
  by (auto simp: min_def intro: exI)

lemma filter_filteredPairs_prefix:
  "\<exists>m. filter (\<lambda>p. episodes p = k) (filteredPairs mn mx ps)
         = take m (filter (\<lambda>p. episodes p = k) ps)"
proof (cases "js_less_eq mn (Finite (int k)) \<and> js_less_eq (Finite (int k)) mx")
  case True
  have "filter (\<lambda>p. episodes p = k) (filteredPairs mn mx ps) = filter (\<lambda>p. episodes p = k) ps"
    unfolding filteredPairs_def filter_filter using True
    by (intro filter_cong) auto
  then have "filter (\<lambda>p. episodes p = k) (filteredPairs mn mx ps)
               = take (length (filter (\<lambda>p. episodes p = k) ps)) (filter (\<lambda>p. episodes p = k) ps)"
    by simp
  then show ?thesis by blast
next
  case False
  have "filter (\<lambda>p. episodes p = k) (filteredPairs mn mx ps) = []"
    unfolding filteredPairs_def filter_filter using False
    by (auto simp: filter_empty_conv)
  then have "filter (\<lambda>p. episodes p = k) (filteredPairs mn mx ps)
               = take 0 (filter (\<lambda>p. episodes p = k) ps)"
    by simp
  then show ?thesis by blast
qed

lemma ties_of_limitedResults:
  "\<exists>m. filter (\<lambda>p. episodes p = k) (limitedResults mn mx lim allCharacters)
         = take m (filter (\<lambda>p. episodes p = k)
                     (charactersPairs (charactersWithEpisodes allCharacters)))"
proof -
  let ?gen = "charactersPairs (charactersWithEpisodes allCharacters)"
  let ?Q = "\<lambda>p. episodes p = k"
  obtain n where n: "limitedResults mn mx lim allCharacters
                       = take n (filteredPairs mn mx (sortedPairs ?gen))"
    unfolding limitedResults_def using array_slice0_take by blast
  obtain m1 where m1: "filter ?Q (take n (filteredPairs mn mx (sortedPairs ?gen)))
                         = take m1 (filter ?Q (filteredPairs mn mx (sortedPairs ?gen)))"
    using filter_take_prefix by blast
  obtain m2 where m2: "filter ?Q (filteredPairs mn mx (sortedPairs ?gen))
                         = take m2 (filter ?Q (sortedPairs ?gen))"
    using filter_filteredPairs_prefix by blast
  have stable: "filter ?Q (sortedPairs ?gen) = filter ?Q ?gen"
  proof -
    have "filter (\<lambda>p. - int (episodes p) = - int k) (sort_key (\<lambda>p. - int (episodes p)) ?gen)
            = filter (\<lambda>p. - int (episodes p) = - int k) ?gen"
      by (rule sort_key_stable)
    then show ?thesis by (simp add: sortedPairs_sort_key)
  qed
  have "filter ?Q (limitedResults mn mx lim allCharacters) = take m1 (take m2 (filter ?Q ?gen))"
    by (simp add: n m1 m2 stable)
  then show ?thesis using filter_take_twice by metis
qed

text \<open>
  C10, as stated, fails: the pairs are generated in the order of the input array, not in
  the order of the ids. For the input Summer (id 3), Rick (id 1), Morty (id 2), who all
  share one episode, the pair of Rick and Summer is sent before the pair of Rick and
  Morty, although both have count 1 and Morty has the smaller id.
\<close>

theorem C10_counterexample:
  "limitedResults (Finite 0) PosInfinity (Finite 20) [tie3, tie1, tie2] =
     [\<lparr>character1 = \<lparr>name = ''Rick'', url = ''c1''\<rparr>,
       character2 = \<lparr>name = ''Summer'', url = ''c3''\<rparr>, episodes = 1\<rparr>,
      \<lparr>character1 = \<lparr>name = ''Rick'', url = ''c1''\<rparr>,
       character2 = \<lparr>name = ''Morty'', url = ''c2''\<rparr>, episodes = 1\<rparr>,
      \<lparr>character1 = \<lparr>name = ''Morty'', url = ''c2''\<rparr>,
       character2 = \<lparr>name = ''Summer'', url = ''c3''\<rparr>, episodes = 1\<rparr>]
   \<and> ch_name tie2 = ''Morty'' \<and> ch_name tie3 = ''Summer'' \<and> ch_id tie2 < ch_id tie3"
  by (simp add: limitedResults_def array_slice0_def filteredPairs_def sortedPairs_def
      array_sort_def compareEpisodes_def charactersPairs_def pairStep_def pairOf_def
      commonEpisodes_def charactersWithEpisodes_def forEach_push_def withEpisodes_def
      tie1_def tie2_def tie3_def)

text \<open>
  C10, amended. For every input: the sort is stable, so the pairs of any one count stay in
  the order in which the loops generated them (first conjunct), and the pairs of any one
  count in the array sent are the first of them in that order (second conjunct). When the
  input array is in strictly ascending order of id, the generation order is ascending id
  of \<open>character1\<close>, then ascending id of \<open>character2\<close>: the array sent is, one for one, the
  objects built from a list of pairs of input characters that is in descending order of
  count and, among equal counts, in that order of ids (third conjunct). The result is a
  function of its arguments, so the same input gives the same output.
\<close>

theorem C10_ties_keep_generation_order:
  "(\<forall>k. filter (\<lambda>p. episodes p = k)
            (sortedPairs (charactersPairs (charactersWithEpisodes allCharacters)))
          = filter (\<lambda>p. episodes p = k)
              (charactersPairs (charactersWithEpisodes allCharacters)))
   \<and> (\<forall>k. \<exists>m. filter (\<lambda>p. episodes p = k) (limitedResults mn mx lim allCharacters)
                  = take m (filter (\<lambda>p. episodes p = k)
                              (charactersPairs (charactersWithEpisodes allCharacters))))
   \<and> (sorted_wrt (<) (map ch_id allCharacters) \<longrightarrow>
        (\<exists>src. limitedResults mn mx lim allCharacters =
                  map (\<lambda>(a, b).
                         \<lparr>character1 = \<lparr>name = we_name a, url = we_url a\<rparr>,
                          character2 = \<lparr>name = we_name b, url = we_url b\<rparr>,
                          episodes = length (filter (\<lambda>ep. ep \<in> set (we_episodes b))
                                               (we_episodes a))\<rparr>) src
              \<and> set src \<subseteq> set (charactersWithEpisodes allCharacters)
                            \<times> set (charactersWithEpisodes allCharacters)
              \<and> sorted_wrt (\<lambda>(a, b) (c, d).
                    length (filter (\<lambda>ep. ep \<in> set (we_episodes d)) (we_episodes c))
                      < length (filter (\<lambda>ep. ep \<in> set (we_episodes b)) (we_episodes a))
                    \<or> (length (filter (\<lambda>ep. ep \<in> set (we_episodes b)) (we_episodes a))
                          = length (filter (\<lambda>ep. ep \<in> set (we_episodes d)) (we_episodes c))
                        \<and> (we_id a < we_id c \<or> (we_id a = we_id c \<and> we_id b < we_id d))))
                  src))"
proof (intro conjI allI impI)
  fix k
  let ?ps = "charactersPairs (charactersWithEpisodes allCharacters)"
  have "filter (\<lambda>p. - int (episodes p) = - int k) (sort_key (\<lambda>p. - int (episodes p)) ?ps)
          = filter (\<lambda>p. - int (episodes p) = - int k) ?ps"
    by (rule sort_key_stable)
  then show "filter (\<lambda>p. episodes p = k) (sortedPairs ?ps) = filter (\<lambda>p. episodes p = k) ?ps"
    by (simp add: sortedPairs_sort_key)
next
  fix k
  show "\<exists>m. filter (\<lambda>p. episodes p = k) (limitedResults mn mx lim allCharacters)
                  = take m (filter (\<lambda>p. episodes p = k)
                              (charactersPairs (charactersWithEpisodes allCharacters)))"
    by (rule ties_of_limitedResults)
next
  assume asc: "sorted_wrt (<) (map ch_id allCharacters)"
  let ?cs = "charactersWithEpisodes allCharacters"
  let ?n = "\<lambda>a b. length (filter (\<lambda>ep. ep \<in> set (we_episodes b)) (we_episodes a))"
  let ?L = "\<lambda>(a, b) (c, d). we_id a < we_id c \<or> (we_id a = we_id c \<and> we_id b < we_id d)"
  let ?f = "\<lambda>(a, b). - int (episodes (pairOf a b))"
  let ?S = "\<lambda>(a, b) (c, d).
              ?n c d < ?n a b
              \<or> (?n a b = ?n c d
                  \<and> (we_id a < we_id c \<or> (we_id a = we_id c \<and> we_id b < we_id d)))"
  have ids: "sorted_wrt (\<lambda>a c. we_id a < we_id c) ?cs"
    using asc by (simp add: charactersWithEpisodes_eq sorted_wrt_map withEpisodes_def)
  have "sorted_wrt (\<lambda>x y. ?f x < ?f y \<or> (?f x = ?f y \<and> ?L x y)) (sort_key ?f (pairSources ?cs))"
    by (rule sorted_wrt_sort_key_refine) (rule sorted_wrt_pairSources [OF ids])
  then have sorted: "sorted_wrt ?S (sort_key ?f (pairSources ?cs))"
    by (rule sorted_wrt_mono_rel [rotated]) (auto simp: pairOf_explicit)
  obtain k P where out: "limitedResults mn mx lim allCharacters =
      map (\<lambda>(a, b). pairOf a b) (take k (filter P (sort_key ?f (pairSources ?cs))))"
    using limitedResults_sources by blast
  let ?src = "take k (filter P (sort_key ?f (pairSources ?cs)))"
  have expl: "(\<lambda>(a, b). pairOf a b) =
                (\<lambda>(a, b).
                   \<lparr>character1 = \<lparr>name = we_name a, url = we_url a\<rparr>,
                    character2 = \<lparr>name = we_name b, url = we_url b\<rparr>,
                    episodes = ?n a b\<rparr>)"
    by (simp add: fun_eq_iff pairOf_explicit)
  have "sorted_wrt ?S ?src"
    by (intro sorted_wrt_take sorted_wrt_filter sorted)
  moreover have "set ?src \<subseteq> set ?cs \<times> set ?cs"
  proof
    fix x assume "x \<in> set ?src"
    then have "x \<in> set (pairSources ?cs)"
      by (auto dest: in_set_takeD)
    then show "x \<in> set ?cs \<times> set ?cs"
      by (auto simp: set_pairSources)
  qed
  moreover have "limitedResults mn mx lim allCharacters =
                   map (\<lambda>(a, b).
                          \<lparr>character1 = \<lparr>name = we_name a, url = we_url a\<rparr>,
                           character2 = \<lparr>name = we_name b, url = we_url b\<rparr>,
                           episodes = ?n a b\<rparr>) ?src"
    using out unfolding expl .
  ultimately show "\<exists>src. limitedResults mn mx lim allCharacters =
                  map (\<lambda>(a, b).
                         \<lparr>character1 = \<lparr>name = we_name a, url = we_url a\<rparr>,
                          character2 = \<lparr>name = we_name b, url = we_url b\<rparr>,
                          episodes = ?n a b\<rparr>) src
              \<and> set src \<subseteq> set ?cs \<times> set ?cs
              \<and> sorted_wrt ?S src"
    by blast
qed

theorem C10_ties_keep_generation_order_witness:
  "sorted_wrt (<) (map ch_id [chRick, chMorty, chSummer])
   \<and> limitedResults (Finite 0) PosInfinity (Finite 20) [chRick, chMorty, chSummer] =
     [\<lparr>character1 = \<lparr>name = ''Rick Sanchez'',
                       url = ''https://rickandmortyapi.com/api/character/1''\<rparr>,
       character2 = \<lparr>name = ''Summer Smith'',
                       url = ''https://rickandmortyapi.com/api/character/3''\<rparr>,
       episodes = 5\<rparr>,
      \<lparr>character1 = \<lparr>name = ''Rick Sanchez'',
                       url = ''https://rickandmortyapi.com/api/character/1''\<rparr>,
       character2 = \<lparr>name = ''Morty Smith'',
                       url = ''https://rickandmortyapi.com/api/character/2''\<rparr>,
       episodes = 2\<rparr>,
      \<lparr>character1 = \<lparr>name = ''Morty Smith'',
                       url = ''https://rickandmortyapi.com/api/character/2''\<rparr>,
       character2 = \<lparr>name = ''Summer Smith'',
                       url = ''https://rickandmortyapi.com/api/character/3''\<rparr>,
       episodes = 2\<rparr>]
   \<and> filter (\<lambda>p. episodes p = 1)
        (sortedPairs (charactersPairs (charactersWithEpisodes [tie3, tie1, tie2])))
      = filter (\<lambda>p. episodes p = 1) (charactersPairs (charactersWithEpisodes [tie3, tie1, tie2]))
   \<and> (\<exists>src. limitedResults (Finite 0) PosInfinity (Finite 20) [chRick, chMorty, chSummer] =
                  map (\<lambda>(a, b).
                         \<lparr>character1 = \<lparr>name = we_name a, url = we_url a\<rparr>,
                          character2 = \<lparr>name = we_name b, url = we_url b\<rparr>,
                          episodes = length (filter (\<lambda>ep. ep \<in> set (we_episodes b))
                                               (we_episodes a))\<rparr>) src
              \<and> set src \<subseteq> set (charactersWithEpisodes [chRick, chMorty, chSummer])
                            \<times> set (charactersWithEpisodes [chRick, chMorty, chSummer])
              \<and> sorted_wrt (\<lambda>(a, b) (c, d).
                    length (filter (\<lambda>ep. ep \<in> set (we_episodes d)) (we_episodes c))
                      < length (filter (\<lambda>ep. ep \<in> set (we_episodes b)) (we_episodes a))
                    \<or> (length (filter (\<lambda>ep. ep \<in> set (we_episodes b)) (we_episodes a))
                          = length (filter (\<lambda>ep. ep \<in> set (we_episodes d)) (we_episodes c))
                        \<and> (we_id a < we_id c \<or> (we_id a = we_id c \<and> we_id b < we_id d))))
                  src)"
proof -
  have h: "sorted_wrt (<) (map ch_id [chRick, chMorty, chSummer])"
    by (simp add: chRick_def chMorty_def chSummer_def)
  note v = limitedResults_onePage
  have t: "filter (\<lambda>p. episodes p = 1)
        (sortedPairs (charactersPairs (charactersWithEpisodes [tie3, tie1, tie2])))
      = filter (\<lambda>p. episodes p = 1) (charactersPairs (charactersWithEpisodes [tie3, tie1, tie2]))"
    using C10_ties_keep_generation_order [of "[tie3, tie1, tie2]"] by blast
  show ?thesis
    using h v t
      C10_ties_keep_generation_order [of "[chRick, chMorty, chSummer]" "Finite 0" PosInfinity "Finite 20"]
    by blast
qed

end
